theory Spec2Isabelle
  imports Main
begin

section \<open>Strings\<close>

text \<open>
  A JavaScript string is modelled as a \<^typ>\<open>string\<close>: a list of code units, each in the
  range U+0000 .. U+00FF. On that range the regular-expression classes and
  \<^verbatim>\<open>String.prototype.toLowerCase\<close> / \<^verbatim>\<open>trim\<close> used by the server are the
  functions below.
\<close>

definition code :: "char \<Rightarrow> nat" where
  "code c = of_char c"

text \<open>The class \<^verbatim>\<open>\s\<close>, which is also what \<^verbatim>\<open>trim()\<close> removes: tab, line feed,
  vertical tab, form feed, carriage return, space and no-break space.\<close>

definition isWhiteSpace :: "char \<Rightarrow> bool" where
  "isWhiteSpace c = (code c = 9 \<or> code c = 10 \<or> code c = 11 \<or> code c = 12 \<or> code c = 13
                      \<or> code c = 32 \<or> code c = 160)"

text \<open>The complement of \<^verbatim>\<open>[^\x20-\x7E\n]\<close>.\<close>

definition isSafeChar :: "char \<Rightarrow> bool" where
  "isSafeChar c = ((32 \<le> code c \<and> code c \<le> 126) \<or> code c = 10)"

text \<open>The complement of \<^verbatim>\<open>[^a-zA-Z0-9]\<close>.\<close>

definition isAlnum :: "char \<Rightarrow> bool" where
  "isAlnum c = ((97 \<le> code c \<and> code c \<le> 122) \<or> (65 \<le> code c \<and> code c \<le> 90)
                 \<or> (48 \<le> code c \<and> code c \<le> 57))"

text \<open>The complement of \<^verbatim>\<open>[^a-z0-9_\-]\<close>.\<close>

definition isSlugChar :: "char \<Rightarrow> bool" where
  "isSlugChar c = ((97 \<le> code c \<and> code c \<le> 122) \<or> (48 \<le> code c \<and> code c \<le> 57)
                    \<or> code c = 95 \<or> code c = 45)"

definition isNewline :: "char \<Rightarrow> bool" where
  "isNewline c = (code c = 10)"

definition isUnderscore :: "char \<Rightarrow> bool" where
  "isUnderscore c = (code c = 95)"

text \<open>\<^verbatim>\<open>toLowerCase\<close> on one code unit: A-Z and the upper-case letters of Latin-1
  (U+00C0 .. U+00DE without the multiplication sign U+00D7) move up by 32.\<close>

definition toLowerChar :: "char \<Rightarrow> char" where
  "toLowerChar c =
     (if (65 \<le> code c \<and> code c \<le> 90) \<or> (192 \<le> code c \<and> code c \<le> 222 \<and> code c \<noteq> 215)
      then char_of (code c + 32) else c)"

definition toLowerCase :: "string \<Rightarrow> string" where
  "toLowerCase s = map toLowerChar s"

definition trimStart :: "string \<Rightarrow> string" where
  "trimStart s = dropWhile isWhiteSpace s"

definition trimEnd :: "string \<Rightarrow> string" where
  "trimEnd s = rev (dropWhile isWhiteSpace (rev s))"

definition trim :: "string \<Rightarrow> string" where
  "trim s = trimEnd (trimStart s)"

text \<open>
  \<^verbatim>\<open>s.replace(/C{k,}/g, rep)\<close> for a character class \<open>C\<close>: the scan goes from left to
  right and the quantifier is greedy, so every maximal run of \<open>C\<close> characters of length at
  least \<open>k\<close> is replaced by \<open>rep\<close>, and a shorter run is kept.
\<close>

function replaceRuns :: "(char \<Rightarrow> bool) \<Rightarrow> nat \<Rightarrow> string \<Rightarrow> string \<Rightarrow> string" where
  "replaceRuns C k rep [] = []"
| "replaceRuns C k rep (c # cs) =
     (if C c
      then (if k \<le> Suc (length (takeWhile C cs)) then rep else c # takeWhile C cs)
             @ replaceRuns C k rep (dropWhile C cs)
      else c # replaceRuns C k rep cs)"
  by pat_completeness auto
termination
  by (relation "measure (\<lambda>(C, k, rep, s). length s)")
     (auto simp: length_dropWhile_le less_Suc_eq_le)

text \<open>\<^verbatim>\<open>s.includes(t)\<close> and \<^verbatim>\<open>/^t/.test(s)\<close> for a literal \<open>t\<close>.\<close>

fun startsWith :: "string \<Rightarrow> string \<Rightarrow> bool" where
  "startsWith s [] = True"
| "startsWith [] (t # ts) = False"
| "startsWith (c # cs) (t # ts) = (c = t \<and> startsWith cs ts)"

fun includesStr :: "string \<Rightarrow> string \<Rightarrow> bool" where
  "includesStr [] t = startsWith [] t"
| "includesStr (c # cs) t = (startsWith (c # cs) t \<or> includesStr cs t)"

section \<open>Text normalisation (server.js)\<close>

text \<open>
  \<^verbatim>\<open>const stripGarbage = (s) => (s || "").replace(/[^\x20-\x7E\n]/g, "")
      .replace(/\s{2,}/g, " ").trim();\<close>
\<close>

definition stripGarbage :: "string \<Rightarrow> string" where
  "stripGarbage s = trim (replaceRuns isWhiteSpace 2 '' '' (filter isSafeChar s))"

text \<open>
  \<^verbatim>\<open>function cleanExtractedText(text) { return text.replace(/[^\x20-\x7E\n]/g, "")
      .replace(/\s{2,}/g, " ").replace(/\n{3,}/g, "\n\n").trim(); }\<close>
\<close>

definition cleanExtractedText :: "string \<Rightarrow> string" where
  "cleanExtractedText text =
     trim (replaceRuns isNewline 3 [CHR 0x0A, CHR 0x0A]
            (replaceRuns isWhiteSpace 2 '' '' (filter isSafeChar text)))"

text \<open>
  \<^verbatim>\<open>const isMeaningful = (s) => { const clean = (s || "").replace(/[^a-zA-Z0-9]/g, "");
      return clean.length >= 30; };\<close>
\<close>

definition isMeaningful :: "string \<Rightarrow> bool" where
  "isMeaningful s = (30 \<le> length (filter isAlnum s))"

text \<open>
  \<^verbatim>\<open>function slugify(s) { return (s || "").toLowerCase().trim()
      .replace(/\s+/g, "_").replace(/[^a-z0-9_\-]/g, ""); }\<close>
\<close>

definition slugify :: "string \<Rightarrow> string" where
  "slugify s = filter isSlugChar (replaceRuns isWhiteSpace 1 ''_'' (trim (toLowerCase s)))"


section \<open>Quiz rows and graded records\<close>

text \<open>
  The records the grader writes into \<^verbatim>\<open>quizzes.graded_json\<close> (interfaces
  \<^verbatim>\<open>Subpart\<close>, \<^verbatim>\<open>Question\<close>, \<^verbatim>\<open>StudentGraded\<close>). Every field is optional in
  the source, so every field is an option here. Marks are integers. An element of a
  \<^verbatim>\<open>page_indices\<close> array is an integer number or any other value (a fraction, NaN, a
  string, null): \<^verbatim>\<open>normalizeIndices\<close> takes \<^verbatim>\<open>unknown[]\<close>. The solution
  post-processor, which takes an element of the parsed model output as \<^verbatim>\<open>any\<close>, has its
  own model of JSON values in its section.
\<close>

datatype jsval = JInt int | JOther

record Subpart =
  sp_label :: "string option"
  sp_marks :: "int option"
  sp_max_marks :: "int option"
  sp_remarks :: "string option"

record Question =
  q_number :: "int option"
  q_marks :: "int option"
  q_max_marks :: "int option"
  q_topic :: "string option"
  q_subparts :: "Subpart list option"
  q_remarks :: "string option"

record StudentGraded =
  student_name :: "string option"
  roll_number :: "string option"
  total_score :: "int option"
  max_score :: "int option"
  page_indices :: "jsval list option"
  questions :: "Question list option"
  remarks :: "string option"

text \<open>The columns of a \<^verbatim>\<open>quizzes\<close> row that the handlers read.\<close>

record quiz =
  original_pdf :: "string option"
  title :: "string option"
  quiz_section :: "string option"
  no_of_pages :: "int option"
  read_first_paper_is_solution :: "bool option"
  graded_json :: "StudentGraded list option"

text \<open>\<^verbatim>\<open>Math.max(1, Number(quiz.no_of_pages || 1))\<close>\<close>

definition pagesPerStudentOf :: "quiz \<Rightarrow> int" where
  "pagesPerStudentOf q =
     max 1 (case no_of_pages q of None \<Rightarrow> 1 | Some v \<Rightarrow> if v = 0 then 1 else v)"

text \<open>\<^verbatim>\<open>quiz.read_first_paper_is_solution !== false\<close>\<close>

definition readFirstPaperIsSolution :: "quiz \<Rightarrow> bool" where
  "readFirstPaperIsSolution q = (read_first_paper_is_solution q \<noteq> Some False)"

section \<open>The OCR naming context and the sentinel names (server.js)\<close>

text \<open>
  \<^verbatim>\<open>type OcrNamingContext = { firstIsSolution: boolean; quizTitle?: string | null;
      section?: string | null; pagesPerStudent: number }\<close>:
  the two names are absent, null or a string.
\<close>

datatype optstr = Absent | Null | Str string

record OcrNamingContext =
  firstIsSolution :: bool
  quizTitle :: optstr
  sectionName :: optstr
  pagesPerStudent :: int

text \<open>\<^verbatim>\<open>let CURRENT_OCR_CTX = { firstIsSolution: false, pagesPerStudent: 1 };\<close>\<close>

definition initial_ctx :: OcrNamingContext where
  "initial_ctx = \<lparr>firstIsSolution = False, quizTitle = Absent, sectionName = Absent,
                   pagesPerStudent = 1\<rparr>"

text \<open>\<^verbatim>\<open>{ firstIsSolution: false, quizTitle: null, section: null, pagesPerStudent: 1 }\<close>\<close>

definition neutral_ctx :: OcrNamingContext where
  "neutral_ctx = \<lparr>firstIsSolution = False, quizTitle = Null, sectionName = Null,
                   pagesPerStudent = 1\<rparr>"

text \<open>\<^verbatim>\<open>x || null\<close> on a nullable text column and \<^verbatim>\<open>x || ""\<close> on a context field.\<close>

definition orNull :: "string option \<Rightarrow> optstr" where
  "orNull x = (case x of None \<Rightarrow> Null | Some s \<Rightarrow> if s = [] then Null else Str s)"

definition orEmpty :: "optstr \<Rightarrow> string" where
  "orEmpty x = (case x of Str s \<Rightarrow> s | _ \<Rightarrow> [])"

definition populate_ctx :: "quiz \<Rightarrow> OcrNamingContext" where
  "populate_ctx q = \<lparr>firstIsSolution = readFirstPaperIsSolution q, quizTitle = orNull (title q),
                      sectionName = orNull (quiz_section q),
                      pagesPerStudent = pagesPerStudentOf q\<rparr>"

text \<open>\<^verbatim>\<open>.replace(/^_+|_+$/g, "")\<close>: the leading and the trailing run of underscores go.\<close>

definition stripEdgeUnderscores :: "string \<Rightarrow> string" where
  "stripEdgeUnderscores s = rev (dropWhile isUnderscore (rev (dropWhile isUnderscore s)))"

text \<open>
  \<^verbatim>\<open>const titleSlug = slugify(CURRENT_OCR_CTX.quizTitle || "");
  const sectionSlug = slugify(CURRENT_OCR_CTX.section || "");
  const solutionName = `solution_paper_${titleSlug}${sectionSlug ? "_" + sectionSlug : ""}`
      .replace(/^_+|_+$/g, "");
  const unknownName = `unknown_${titleSlug}${sectionSlug ? "_" + sectionSlug : ""}`
      .replace(/^_+|_+$/g, "");\<close>
\<close>

definition titleSlug :: "OcrNamingContext \<Rightarrow> string" where
  "titleSlug ctx = slugify (orEmpty (quizTitle ctx))"

definition sectionSlug :: "OcrNamingContext \<Rightarrow> string" where
  "sectionSlug ctx = slugify (orEmpty (sectionName ctx))"

definition slugSuffix :: "OcrNamingContext \<Rightarrow> string" where
  "slugSuffix ctx =
     titleSlug ctx @ (if sectionSlug ctx \<noteq> [] then ''_'' @ sectionSlug ctx else [])"

definition solutionName :: "OcrNamingContext \<Rightarrow> string" where
  "solutionName ctx = stripEdgeUnderscores (''solution_paper_'' @ slugSuffix ctx)"

definition unknownName :: "OcrNamingContext \<Rightarrow> string" where
  "unknownName ctx = stripEdgeUnderscores (''unknown_'' @ slugSuffix ctx)"

section \<open>The OCR process operation (server.js, POST /process-quiz/:id)\<close>

text \<open>
  The six adapters are external engines. A call of one returns a text or throws; which of
  the two, and the text, is the environment of a run, and may depend on the naming context
  the run has populated. What is thrown is any value: an error (or another value that is
  not null or undefined), of which the wrapper reads the message, or \<^verbatim>\<open>undefined\<close> or
  \<^verbatim>\<open>null\<close> (a promise rejected without a reason).
\<close>

datatype adapter = PdfParse | VisionPdf | OpenAIOCR | GeminiOCR | Images | Tesseract

datatype outcome = Returns string | Throws string | ThrowsUndefined | ThrowsNull

text \<open>
  The wrappers \<^verbatim>\<open>tryPdfParse\<close>, \<^verbatim>\<open>tryVisionPdf\<close>, \<^verbatim>\<open>tryOpenAIOCR\<close>,
  \<^verbatim>\<open>tryGeminiOCR\<close>, \<^verbatim>\<open>tryImages\<close>, \<^verbatim>\<open>tryTesseract\<close>, each of the form
  \<^verbatim>\<open>try { const txt = await adapter(); return txt; }
  catch (e) { console.warn("... failed:", e.message); return ""; }\<close>
  (\<^verbatim>\<open>tryPdfParse\<close> passes the text through \<^verbatim>\<open>stripGarbage\<close>). The catch block reads
  \<^verbatim>\<open>e.message\<close>: on \<^verbatim>\<open>undefined\<close> or \<^verbatim>\<open>null\<close> that read throws a TypeError, which
  leaves the wrapper. The result of a wrapper is \<open>Inr\<close> its text, or \<open>Inl\<close> the message of
  the TypeError it throws.
\<close>

definition cannotReadMessageOf :: "string \<Rightarrow> string" where
  "cannotReadMessageOf what =
     ''Cannot read properties of '' @ what @ '' (reading '' @ [CHR 0x27] @ ''message''
       @ [CHR 0x27] @ '')''"

definition tryAdapter :: "(adapter \<Rightarrow> outcome) \<Rightarrow> adapter \<Rightarrow> string + string" where
  "tryAdapter env a =
     (case env a of
        Returns txt \<Rightarrow> Inr (if a = PdfParse then stripGarbage txt else txt)
      | Throws msg \<Rightarrow> Inr []
      | ThrowsUndefined \<Rightarrow> Inl (cannotReadMessageOf ''undefined'')
      | ThrowsNull \<Rightarrow> Inl (cannotReadMessageOf ''null''))"

text \<open>
  The state of the engine selection is the current \<^verbatim>\<open>extractedText\<close>, or the error that
  has left the selection, and the list of adapters called so far. \<open>run\<close> is
  \<^verbatim>\<open>extractedText = await tryX();\<close> and \<open>orElse\<close> is
  \<^verbatim>\<open>if (!isMeaningful(extractedText)) extractedText = await tryX();\<close>
  After an error no further statement of the selection runs.
\<close>

type_synonym cascade_state = "(string + string) \<times> adapter list"

definition run :: "(adapter \<Rightarrow> outcome) \<Rightarrow> adapter \<Rightarrow> cascade_state \<Rightarrow> cascade_state" where
  "run env a st =
     (case fst st of
        Inl err \<Rightarrow> st
      | Inr extractedText \<Rightarrow> (tryAdapter env a, snd st @ [a]))"

definition orElse :: "(adapter \<Rightarrow> outcome) \<Rightarrow> adapter \<Rightarrow> cascade_state \<Rightarrow> cascade_state" where
  "orElse env a st =
     (case fst st of
        Inl err \<Rightarrow> st
      | Inr extractedText \<Rightarrow> (if \<not> isMeaningful extractedText then run env a st else st))"

text \<open>\<^verbatim>\<open>let extractedText = "";\<close>\<close>

definition noText :: cascade_state where
  "noText = (Inr [], [])"

definition cascade :: "(adapter \<Rightarrow> outcome) \<Rightarrow> string \<Rightarrow> cascade_state" where
  "cascade env engine =
     (if engine = ''vision-pdf'' then
        orElse env Tesseract (orElse env Images (run env VisionPdf noText))
      else if engine = ''images'' then
        orElse env Tesseract (run env Images noText)
      else if engine = ''tesseract'' then
        run env Tesseract noText
      else if engine = ''openai-ocr'' then
        orElse env Tesseract (run env OpenAIOCR noText)
      else if engine = ''gemini-ocr'' then
        orElse env Tesseract (run env GeminiOCR noText)
      else
        orElse env Tesseract (orElse env Images (orElse env GeminiOCR
          (orElse env OpenAIOCR (orElse env VisionPdf (run env PdfParse noText))))))"

text \<open>
  One request. Its environment: the \<^verbatim>\<open>engine\<close> query parameter, the row the quiz lookup
  finds (none on an error), whether the download of the PDF and the writing of the
  temporary file succeed, the adapters, the error of the final update of the row and the
  error of deleting the temporary file. Its result: the naming context it leaves, the
  response, the text written to \<^verbatim>\<open>extracted_text\<close> and the adapters called.

  The handler is one \<^verbatim>\<open>try { ... } catch (err) { res.status(500).json({ error:
  err.message }); }\<close> without a \<^verbatim>\<open>finally\<close>: the context is populated before the engine
  selection, and the assignment \<^verbatim>\<open>CURRENT_OCR_CTX = { firstIsSolution: false, quizTitle:
  null, section: null, pagesPerStudent: 1 };\<close> follows it, so an error that leaves the
  selection goes to the catch block past that assignment.
\<close>

record request_env =
  engine_param :: "string option"
  quiz_row :: "quiz option"
  download_ok :: bool
  adapters :: "OcrNamingContext \<Rightarrow> adapter \<Rightarrow> outcome"
  update_error :: "string option"
  unlink_error :: "string option"

datatype response = Status404 | Status500 string | Success string

record request_result =
  ctx_after :: OcrNamingContext
  reply :: response
  persisted :: "string option"
  called :: "adapter list"

definition process_quiz :: "request_env \<Rightarrow> OcrNamingContext \<Rightarrow> request_result" where
  "process_quiz env ctx =
     (let engine = (case engine_param env of None \<Rightarrow> ''auto''
                    | Some e \<Rightarrow> (if e = [] then ''auto'' else e))
      in (case quiz_row env of
            None \<Rightarrow> \<lparr>ctx_after = ctx, reply = Status404, persisted = None, called = []\<rparr>
          | Some q \<Rightarrow>
             (if \<not> download_ok env then
                \<lparr>ctx_after = ctx, reply = Status500 ''Failed to download quiz PDF'',
                 persisted = None, called = []\<rparr>
              else
                (let ctx1 = populate_ctx q;
                     st = cascade (adapters env ctx1) engine
                 in (case fst st of
                       Inl err \<Rightarrow> \<lparr>ctx_after = ctx1, reply = Status500 err, persisted = None,
                                   called = snd st\<rparr>
                     | Inr extractedText \<Rightarrow>
                        (let ctx2 = neutral_ctx;
                             cleaned = cleanExtractedText extractedText
                         in (case update_error env of
                               Some msg \<Rightarrow> \<lparr>ctx_after = ctx2, reply = Status500 msg,
                                            persisted = None, called = snd st\<rparr>
                             | None \<Rightarrow>
                                (case unlink_error env of
                                   Some msg \<Rightarrow> \<lparr>ctx_after = ctx2, reply = Status500 msg,
                                                persisted = Some cleaned, called = snd st\<rparr>
                                 | None \<Rightarrow> \<lparr>ctx_after = ctx2, reply = Success cleaned,
                                             persisted = Some cleaned,
                                             called = snd st\<rparr>))))))))"

section \<open>Composite-pack selection (SBAW.js)\<close>

text \<open>Array reads: \<^verbatim>\<open>xs[i]\<close> is undefined outside the array.\<close>

definition at :: "'a list \<Rightarrow> int \<Rightarrow> 'a option" where
  "at xs i = (if 0 \<le> i \<and> i < int (length xs) then Some (xs ! nat i) else None)"

text \<open>\<^verbatim>\<open>a ?? b\<close>\<close>

definition nullish :: "'a option \<Rightarrow> 'a \<Rightarrow> 'a" where
  "nullish a b = (case a of Some v \<Rightarrow> v | None \<Rightarrow> b)"

text \<open>\<^verbatim>\<open>{}\<close>, the record that stands for a missing array element in \<^verbatim>\<open>graded[i] || {}\<close>.\<close>

definition emptyStudent :: StudentGraded where
  "emptyStudent = \<lparr>student_name = None, roll_number = None, total_score = None,
                     max_score = None, page_indices = None, questions = None, remarks = None\<rparr>"

record Mapped =
  index :: nat
  pageIndex :: int
  student :: StudentGraded

text \<open>
  \<^verbatim>\<open>function pickSolutionIndex(arr) {
    const cand = arr.find((m) => {
      const n = (m.student?.student_name || "").toLowerCase();
      return /^unknown_/.test(n) || /^solution_paper_/.test(n); });
    if (cand) return cand.pageIndex;
    return arr[0]?.pageIndex ?? 0; }\<close>
\<close>

definition isSentinelName :: "string option \<Rightarrow> bool" where
  "isSentinelName nm =
     (let n = toLowerCase (nullish nm [])
      in startsWith n ''unknown_'' \<or> startsWith n ''solution_paper_'')"

definition pickSolutionIndex :: "Mapped list \<Rightarrow> int" where
  "pickSolutionIndex arr =
     (case find (\<lambda>m. isSentinelName (student_name (student m))) arr of
        Some cand \<Rightarrow> pageIndex cand
      | None \<Rightarrow> nullish (map_option pageIndex (at arr 0)) 0)"

text \<open>
  \<^verbatim>\<open>[...pool].sort(cmp)\<close>: the sort of an array is stable, and an element goes before the
  first one it does not compare greater than. It is written as the insertion of the elements
  from the right.
\<close>

fun insertBy :: "('a \<Rightarrow> 'a \<Rightarrow> int) \<Rightarrow> 'a \<Rightarrow> 'a list \<Rightarrow> 'a list" where
  "insertBy cmp x [] = [x]"
| "insertBy cmp x (y # ys) = (if cmp x y \<le> 0 then x # y # ys else y # insertBy cmp x ys)"

definition sortBy :: "('a \<Rightarrow> 'a \<Rightarrow> int) \<Rightarrow> 'a list \<Rightarrow> 'a list" where
  "sortBy cmp xs = foldr (insertBy cmp) xs []"

text \<open>\<^verbatim>\<open>(a, b) => (b.student.total_score ?? 0) - (a.student.total_score ?? 0)\<close>\<close>

definition scoreOf :: "Mapped \<Rightarrow> int" where
  "scoreOf m = nullish (total_score (student m)) 0"

definition byScoreDesc :: "Mapped \<Rightarrow> Mapped \<Rightarrow> int" where
  "byScoreDesc a b = scoreOf b - scoreOf a"

text \<open>
  The mapping of the first page of each student's block:
  \<^verbatim>\<open>const maxStudentsByPages = Math.floor(pageCount / pagesPerStudent);
  const useStudents = Math.min(graded.length, maxStudentsByPages);
  for (let i = 0; i < useStudents; i++) {
    const firstPageOfBlock = i * pagesPerStudent;
    mapped.push({ index: i, pageIndex: firstPageOfBlock, student: graded[i] || {} }); }\<close>
\<close>

definition buildMapped :: "int \<Rightarrow> int \<Rightarrow> StudentGraded list \<Rightarrow> Mapped list" where
  "buildMapped pageCount pps graded =
     (let maxStudentsByPages = pageCount div pps;
          useStudents = min (int (length graded)) maxStudentsByPages
      in map (\<lambda>i. \<lparr>index = i, pageIndex = int i * pps,
                     student = nullish (at graded (int i)) emptyStudent\<rparr>)
             [0 ..< nat useStudents])"

record selection =
  mapped :: "Mapped list"
  solutionIdx :: "int option"
  bestIdx :: int
  avgIdx :: int
  lowIdx :: int

datatype sbab_error = QuizOrPdfNotFound | DownloadFailed | TypeError

text \<open>
  \<^verbatim>\<open>selectFromFormattedAndBuild\<close>. The quiz lookup gives a row or nothing, and the download
  of the original PDF gives its page count or nothing.
\<close>

definition pageAt :: "Mapped list \<Rightarrow> int \<Rightarrow> int option" where
  "pageAt xs i = map_option pageIndex (at xs i)"

definition selectFromFormattedAndBuild :: "quiz option \<Rightarrow> int option \<Rightarrow> sbab_error + selection" where
  "selectFromFormattedAndBuild row download =
     (case row of
        None \<Rightarrow> Inl QuizOrPdfNotFound
      | Some q \<Rightarrow>
         (if nullish (original_pdf q) [] = [] then Inl QuizOrPdfNotFound
          else (case download of
                  None \<Rightarrow> Inl DownloadFailed
                | Some pageCount \<Rightarrow>
                   (let graded = nullish (graded_json q) [];
                        mp = buildMapped pageCount (pagesPerStudentOf q) graded;
                        sol = (if readFirstPaperIsSolution q then Some (pickSolutionIndex mp)
                               else None);
                        pool = (case sol of None \<Rightarrow> mp
                                | Some si \<Rightarrow> filter (\<lambda>m. pageIndex m \<noteq> si) mp);
                        sorted_pool = sortBy byScoreDesc pool;
                        fallback = nullish (pageAt pool 0) (nullish (pageAt mp 0) 0)
                    in Inr \<lparr>mapped = mp, solutionIdx = sol,
                            bestIdx = nullish (pageAt sorted_pool 0) fallback,
                            avgIdx = nullish (pageAt sorted_pool (int (length sorted_pool) div 2))
                                       fallback,
                            lowIdx = nullish (pageAt sorted_pool (int (length sorted_pool) - 1))
                                       fallback\<rparr>))))"

text \<open>
  The roles of \<^verbatim>\<open>buildSBABSingle\<close>, in output order. The student of a role is
  \<^verbatim>\<open>(mapped.find(m => m.pageIndex === page) || mapped[0]).student\<close>, a TypeError when
  nothing is mapped.
\<close>

record role =
  label :: string
  page :: int
  role_student :: StudentGraded

definition studentOfPage :: "Mapped list \<Rightarrow> int \<Rightarrow> sbab_error + StudentGraded" where
  "studentOfPage mp p =
     (case find (\<lambda>m. pageIndex m = p) mp of
        Some m \<Rightarrow> Inr (student m)
      | None \<Rightarrow> (case mp of [] \<Rightarrow> Inl TypeError | m # ms \<Rightarrow> Inr (student m)))"

fun buildRoles :: "Mapped list \<Rightarrow> (string \<times> int) list \<Rightarrow> sbab_error + role list" where
  "buildRoles mp [] = Inr []"
| "buildRoles mp ((l, p) # rest) =
     (case studentOfPage mp p of
        Inl e \<Rightarrow> Inl e
      | Inr s \<Rightarrow> (case buildRoles mp rest of
                    Inl e \<Rightarrow> Inl e
                  | Inr rs \<Rightarrow> Inr (\<lparr>label = l, page = p, role_student = s\<rparr> # rs)))"

definition roleOrder :: "quiz option \<Rightarrow> int option \<Rightarrow> sbab_error + role list" where
  "roleOrder row download =
     (case selectFromFormattedAndBuild row download of
        Inl e \<Rightarrow> Inl e
      | Inr sel \<Rightarrow>
          buildRoles (mapped sel)
            ((case solutionIdx sel of None \<Rightarrow> [] | Some si \<Rightarrow> [(''Solution'', si)])
             @ [(''Best'', bestIdx sel), (''Avg'', avgIdx sel), (''Low'', lowIdx sel)]))"


section \<open>Page mapping (green_page_map.ts)\<close>

text \<open>
  \<^verbatim>\<open>function normalizeIndices(indices: unknown[], pageCount: number): number[] {
    const nums = (indices || [])
      .map((v) => (typeof v === "number" ? v : Number.isFinite(v as any) ? Number(v) : NaN))
      .filter((n) => Number.isInteger(n) && n >= 0 && n < pageCount);
    return Array.from(new Set(nums)).sort((a, b) => a - b); }\<close>
  A value that is not an integer number does not pass \<^verbatim>\<open>Number.isInteger\<close>. The set
  keeps the first occurrence of each number, in insertion order.
\<close>

definition asInteger :: "jsval \<Rightarrow> int option" where
  "asInteger v = (case v of JInt n \<Rightarrow> Some n | JOther \<Rightarrow> None)"

definition setOf :: "int list \<Rightarrow> int list" where
  "setOf nums = fold (\<lambda>x acc. if x \<in> set acc then acc else acc @ [x]) nums []"

definition normalizeIndices :: "jsval list \<Rightarrow> int \<Rightarrow> int list" where
  "normalizeIndices indices pageCount =
     (let nums = filter (\<lambda>n. 0 \<le> n \<and> n < pageCount) (List.map_filter asInteger indices)
      in sortBy (\<lambda>a b. a - b) (setOf nums))"

text \<open>\<^verbatim>\<open>Array.from({ length: len }, (_, k) => start + k)\<close>\<close>

definition arrayFrom :: "int \<Rightarrow> int \<Rightarrow> int list" where
  "arrayFrom len start = map (\<lambda>k. start + int k) [0 ..< nat len]"

text \<open>
  \<^verbatim>\<open>evenSplit\<close>: the loop \<^verbatim>\<open>for (let i = 0; i < n; i++)\<close> with its variables
  \<^verbatim>\<open>remainder\<close> and \<^verbatim>\<open>cursor\<close>; the first argument counts the iterations left.
\<close>

fun evenSplitLoop :: "nat \<Rightarrow> int \<Rightarrow> int \<Rightarrow> int \<Rightarrow> int list list" where
  "evenSplitLoop 0 base remainder cursor = []"
| "evenSplitLoop (Suc k) base remainder cursor =
     (let take = base + (if remainder > 0 then 1 else 0)
      in arrayFrom take cursor
         # evenSplitLoop k base (if remainder > 0 then remainder - 1 else remainder)
             (cursor + take))"

definition evenSplit :: "int \<Rightarrow> int \<Rightarrow> int list list" where
  "evenSplit pageCount n =
     (if n \<le> 0 \<or> pageCount \<le> 0 then replicate (nat (max 0 n)) []
      else (let base = pageCount div n;
                remainder = pageCount - base * n
            in evenSplitLoop (nat n) base remainder 0))"

text \<open>
  \<^verbatim>\<open>inferByPageTexts\<close>. A page starts a block when its lower-cased text includes
  \<^verbatim>\<open>"name:"\<close> and \<^verbatim>\<open>"roll:"\<close>; a block runs to the next start, the last one to the end.
\<close>

definition isBlockStart :: "string \<Rightarrow> bool" where
  "isBlockStart text =
     (let t = toLowerCase text in includesStr t ''name:'' \<and> includesStr t ''roll:'')"

definition blockStarts :: "string list \<Rightarrow> int list" where
  "blockStarts page_texts =
     map int (filter (\<lambda>i. isBlockStart (page_texts ! i)) [0 ..< length page_texts])"

fun buildRanges :: "int list \<Rightarrow> int \<Rightarrow> int list list" where
  "buildRanges [] len = []"
| "buildRanges [s] len = [arrayFrom (max 0 (len - s)) s]"
| "buildRanges (s # e # rest) len = arrayFrom (max 0 (e - s)) s # buildRanges (e # rest) len"

definition inferByPageTexts :: "string list option \<Rightarrow> nat \<Rightarrow> int list list" where
  "inferByPageTexts page_texts expectedStudents =
     (case page_texts of
        None \<Rightarrow> []
      | Some texts \<Rightarrow>
         (if texts = [] \<or> expectedStudents = 0 then []
          else (let starts = blockStarts texts
                in if starts = [] then [] else buildRanges starts (int (length texts)))))"

text \<open>\<^verbatim>\<open>pageCount | 0\<close>: the conversion to a signed 32-bit integer.\<close>

definition toInt32 :: "int \<Rightarrow> int" where
  "toInt32 x = (let m = x mod 4294967296 in if m \<ge> 2147483648 then m - 4294967296 else m)"

definition withPages :: "StudentGraded \<Rightarrow> int list \<Rightarrow> StudentGraded" where
  "withPages s pages = s\<lparr>page_indices := Some (map JInt pages)\<rparr>"

text \<open>
  The students that the inferred blocks do not reach:
  \<^verbatim>\<open>for (let j = 0; j < remaining; j++) {
    const take = split[j] || [];
    const indices = take.map(() => remainingPages[cursor++]).filter((x) => x != null);
    out.push({ ...list[min + j], page_indices: normalizeIndices(indices, totalPages) }); }\<close>
\<close>

fun spillover :: "int list \<Rightarrow> int \<Rightarrow> nat \<Rightarrow> StudentGraded list \<Rightarrow> int list list
                  \<Rightarrow> StudentGraded list" where
  "spillover remainingPages totalPages cursor [] split = []"
| "spillover remainingPages totalPages cursor (s # rest) split =
     (let take = (case split of [] \<Rightarrow> [] | t # ts \<Rightarrow> t);
          indices = List.map_filter (\<lambda>k. at remainingPages (int (cursor + k)))
                      [0 ..< length take]
      in withPages s (normalizeIndices (map JInt indices) totalPages)
         # spillover remainingPages totalPages (cursor + length take) rest (tl split))"

definition allProvided :: "StudentGraded list \<Rightarrow> bool" where
  "allProvided students =
     list_all (\<lambda>s. case page_indices s of None \<Rightarrow> False | Some ix \<Rightarrow> ix \<noteq> []) students"

definition mapPagesToStudents :: "int \<Rightarrow> StudentGraded list \<Rightarrow> string list option
                                   \<Rightarrow> StudentGraded list" where
  "mapPagesToStudents pageCount students page_texts =
     (let totalPages = max 0 (toInt32 pageCount);
          n = length students
      in if n = 0 then []
         else if allProvided students then
           map (\<lambda>s. withPages s (normalizeIndices (nullish (page_indices s) []) totalPages))
               students
         else
           (let inferredBlocks = inferByPageTexts page_texts n
            in if length inferredBlocks \<ge> 1 then
                 (if length inferredBlocks = n then
                    map (\<lambda>(s, blk). withPages s (normalizeIndices (map JInt blk) totalPages))
                        (zip students inferredBlocks)
                  else
                    (let mn = min n (length inferredBlocks);
                         out = map (\<lambda>(s, blk).
                                      withPages s (normalizeIndices (map JInt blk) totalPages))
                                   (zip (take mn students) (take mn inferredBlocks))
                     in if mn < n then
                          (let remaining = n - mn;
                               remainingPages =
                                 filter (\<lambda>p. \<not> list_ex (\<lambda>blk. p \<in> set blk) inferredBlocks)
                                        (arrayFrom totalPages 0);
                               split = evenSplit (int (length remainingPages)) (int remaining)
                           in out @ spillover remainingPages totalPages 0 (drop mn students)
                                      split)
                        else out))
               else
                 (let split = evenSplit totalPages (int n)
                  in map (\<lambda>i. withPages (students ! i)
                                  (normalizeIndices (map JInt (nullish (at split (int i)) []))
                                     totalPages))
                         [0 ..< n])))"

text \<open>The page list of an output record: its \<^verbatim>\<open>page_indices\<close>, if all are integers.\<close>

definition pagesOf :: "StudentGraded \<Rightarrow> int list" where
  "pagesOf s = List.map_filter asInteger (nullish (page_indices s) [])"

section \<open>The solution post-processor (grader.ts)\<close>

text \<open>
  The grader parses the model output with \<^verbatim>\<open>JSON.parse\<close>, and the post-processor takes
  its first element as \<^verbatim>\<open>any\<close>: a value is null, a boolean, a number, a string, an array
  or an object (its properties, in order; \<^verbatim>\<open>JSON.parse\<close> gives each name once, and of two
  properties with one name the model reads and writes the first). A number is an IEEE double. The type of the
  numbers and the operations on them that the post-processor uses are parameters of the
  model, and nothing is assumed of them: the addition, the numbers 0 and 1, the test for
  the falsy numbers (0, -0 and NaN), \<^verbatim>\<open>Number(s)\<close> of a string and \<^verbatim>\<open>String(n)\<close>.
\<close>

datatype 'n json =
    JNull
  | JBool bool
  | JNum 'n
  | JStr string
  | JArr "'n json list"
  | JObj "(string \<times> 'n json) list"

record 'n numbers =
  num_add :: "'n \<Rightarrow> 'n \<Rightarrow> 'n"
  num_zero :: 'n
  num_one :: 'n
  num_falsy :: "'n \<Rightarrow> bool"
  num_of_string :: "string \<Rightarrow> 'n"
  num_to_string :: "'n \<Rightarrow> string"

text \<open>
  \<^verbatim>\<open>v.k\<close> and \<^verbatim>\<open>v?.k\<close> for the property names the post-processor reads: undefined
  (\<open>None\<close>) unless \<open>v\<close> is an object with that property. (A read without \<^verbatim>\<open>?.\<close> is never
  made on null: it follows the guard, an \<^verbatim>\<open>Array.isArray\<close> test or an assignment to
  the same value.)
\<close>

definition getProp :: "string \<Rightarrow> 'n json \<Rightarrow> 'n json option" where
  "getProp k v = (case v of JObj ps \<Rightarrow> map_of ps k | _ \<Rightarrow> None)"

text \<open>The properties of an object after \<^verbatim>\<open>obj.k = v\<close>: an existing property keeps its place.\<close>

fun setProp :: "string \<Rightarrow> 'a \<Rightarrow> (string \<times> 'a) list \<Rightarrow> (string \<times> 'a) list" where
  "setProp k v [] = [(k, v)]"
| "setProp k v (p # ps) = (if fst p = k then (k, v) # ps else p # setProp k v ps)"

text \<open>
  \<^verbatim>\<open>target.k = v\<close> in strict mode (the module starts with \<^verbatim>\<open>"use strict"\<close>): a
  TypeError (\<open>None\<close>) on null and on a boolean, a number or a string. On an array the
  property is set on the array object; it is no part of the array's JSON value, and the
  post-processor reads no property of an array that it has set, \<^verbatim>\<open>q.marks\<close> apart, whose
  value is the one just assigned.
\<close>

definition assign :: "string \<Rightarrow> 'n json \<Rightarrow> 'n json \<Rightarrow> 'n json option" where
  "assign k v target =
     (case target of
        JObj ps \<Rightarrow> Some (JObj (setProp k v ps))
      | JArr xs \<Rightarrow> Some (JArr xs)
      | _ \<Rightarrow> None)"

text \<open>An assignment to a value that an earlier assignment has shown to be assignable.\<close>

definition setField :: "string \<Rightarrow> 'n json \<Rightarrow> 'n json \<Rightarrow> 'n json" where
  "setField k v target = (case assign k v target of Some t \<Rightarrow> t | None \<Rightarrow> target)"

text \<open>\<^verbatim>\<open>a || d\<close>: \<open>d\<close> when \<open>a\<close> is undefined, null, false, a falsy number or the empty string.\<close>

definition orDefault :: "'n numbers \<Rightarrow> 'n json option \<Rightarrow> 'n json \<Rightarrow> 'n json" where
  "orDefault nu a d =
     (case a of
        None \<Rightarrow> d
      | Some JNull \<Rightarrow> d
      | Some (JBool b) \<Rightarrow> if b then JBool b else d
      | Some (JNum n) \<Rightarrow> if num_falsy nu n then d else JNum n
      | Some (JStr t) \<Rightarrow> if t = [] then d else JStr t
      | Some (JArr xs) \<Rightarrow> JArr xs
      | Some (JObj ps) \<Rightarrow> JObj ps)"

text \<open>
  The conversion of a value to a string, by \<^verbatim>\<open>v.toString()\<close> and inside \<^verbatim>\<open>Number(v)\<close>,
  throws a TypeError on an object that has a property named \<^verbatim>\<open>toString\<close> (a parsed JSON
  value is never a function, and \<^verbatim>\<open>Object.prototype.valueOf\<close> returns the object), and on
  an array that holds such an object.
\<close>

fun convertible :: "'n json \<Rightarrow> bool"
  and convertibleItems :: "'n json list \<Rightarrow> bool" where
  "convertible JNull = True"
| "convertible (JBool b) = True"
| "convertible (JNum n) = True"
| "convertible (JStr t) = True"
| "convertible (JArr xs) = convertibleItems xs"
| "convertible (JObj ps) = (map_of ps ''toString'' = None)"
| "convertibleItems [] = True"
| "convertibleItems (x # xs) = (convertible x \<and> convertibleItems xs)"

text \<open>
  The string of a value that converts: an object without that property gives
  \<^verbatim>\<open>[object Object]\<close>, and an array joins the strings of its elements with commas, with
  the empty string for null.
\<close>

fun toStr :: "'n numbers \<Rightarrow> 'n json \<Rightarrow> string"
  and joinItems :: "'n numbers \<Rightarrow> 'n json list \<Rightarrow> string" where
  "toStr nu JNull = ''null''"
| "toStr nu (JBool b) = (if b then ''true'' else ''false'')"
| "toStr nu (JNum n) = num_to_string nu n"
| "toStr nu (JStr t) = t"
| "toStr nu (JArr xs) = joinItems nu xs"
| "toStr nu (JObj ps) = ''[object Object]''"
| "joinItems nu [] = []"
| "joinItems nu [x] = (case x of JNull \<Rightarrow> [] | _ \<Rightarrow> toStr nu x)"
| "joinItems nu (x # y # ys) =
     (case x of JNull \<Rightarrow> [] | _ \<Rightarrow> toStr nu x) @ '','' @ joinItems nu (y # ys)"

text \<open>
  \<^verbatim>\<open>Number(v) || d\<close> for a value \<open>v\<close> that converts: \<^verbatim>\<open>Number\<close> of null and of false
  is 0, of true is 1, of an object is NaN, and of an array is \<^verbatim>\<open>Number\<close> of its string.
\<close>

definition numberOr :: "'n numbers \<Rightarrow> 'n json \<Rightarrow> 'n \<Rightarrow> 'n" where
  "numberOr nu v d =
     (case v of
        JNull \<Rightarrow> d
      | JBool b \<Rightarrow> if b then num_one nu else d
      | JNum n \<Rightarrow> if num_falsy nu n then d else n
      | JStr t \<Rightarrow> (let n = num_of_string nu t in if num_falsy nu n then d else n)
      | JArr xs \<Rightarrow> (let n = num_of_string nu (toStr nu (JArr xs))
                    in if num_falsy nu n then d else n)
      | JObj ps \<Rightarrow> d)"

text \<open>\<^verbatim>\<open>Number(x ?? 0) || 0\<close>: whether it throws, and its value when it does not.\<close>

definition numOr0Throws :: "'n json option \<Rightarrow> bool" where
  "numOr0Throws x = (case x of None \<Rightarrow> False | Some v \<Rightarrow> \<not> convertible v)"

definition numOr0 :: "'n numbers \<Rightarrow> 'n json option \<Rightarrow> 'n" where
  "numOr0 nu x = (case x of None \<Rightarrow> num_zero nu | Some v \<Rightarrow> numberOr nu v (num_zero nu))"

text \<open>\<^verbatim>\<open>Number(m || 0)\<close> for a number \<open>m\<close>.\<close>

definition orZero :: "'n numbers \<Rightarrow> 'n \<Rightarrow> 'n" where
  "orZero nu m = (if num_falsy nu m then num_zero nu else m)"

text \<open>
  \<^verbatim>\<open>if (typeof r === "string" && r.length > 0) r = `${r} | ${note}`; else r = note;\<close>
\<close>

definition addNote :: "'n json option \<Rightarrow> string \<Rightarrow> 'n json" where
  "addNote r note =
     (case r of
        Some (JStr t) \<Rightarrow> if t \<noteq> [] then JStr (t @ '' | '' @ note) else JStr note
      | _ \<Rightarrow> JStr note)"

text \<open>
  The body of the inner loop, for one subpart:
  \<^verbatim>\<open>const spMax = Number(sp?.max_marks ?? 0) || 0; sp.marks = spMax;\<close> and the note on
  \<^verbatim>\<open>sp.remarks\<close>. \<open>None\<close>: the conversion or the first assignment throws, and the
  subpart is as it was.
\<close>

definition forceSubpart :: "'n numbers \<Rightarrow> 'n json \<Rightarrow> 'n json option" where
  "forceSubpart nu sp =
     (if numOr0Throws (getProp ''max_marks'' sp) then None
      else (case assign ''marks'' (JNum (numOr0 nu (getProp ''max_marks'' sp))) sp of
              None \<Rightarrow> None
            | Some sp1 \<Rightarrow>
                Some (setField ''remarks''
                        (addNote (getProp ''remarks'' sp1) ''Solution key (full marks)'') sp1)))"

text \<open>
  The inner loop with its accumulator \<^verbatim>\<open>subSum\<close>. Its result: the subparts as the loop
  leaves them, \<^verbatim>\<open>subSum\<close>, and whether it has thrown.
\<close>

fun forceSubparts :: "'n numbers \<Rightarrow> 'n json list \<Rightarrow> 'n \<Rightarrow> 'n json list \<times> 'n \<times> bool" where
  "forceSubparts nu [] subSum = ([], subSum, False)"
| "forceSubparts nu (sp # sps) subSum =
     (case forceSubpart nu sp of
        None \<Rightarrow> (sp # sps, subSum, True)
      | Some sp' \<Rightarrow>
          (let r = forceSubparts nu sps
                     (num_add nu subSum (numOr0 nu (getProp ''max_marks'' sp)))
           in (sp' # fst r, snd r)))"

text \<open>
  \<^verbatim>\<open>q.subparts\<close> when \<^verbatim>\<open>Array.isArray(q?.subparts) && q.subparts.length > 0\<close>, and the
  empty list otherwise; \<^verbatim>\<open>first.questions\<close> when \<^verbatim>\<open>Array.isArray(first.questions)\<close>.
\<close>

definition subpartsOf :: "'n json \<Rightarrow> 'n json list" where
  "subpartsOf q = (case getProp ''subparts'' q of Some (JArr sps) \<Rightarrow> sps | _ \<Rightarrow> [])"

definition questionsOf :: "'n json \<Rightarrow> 'n json list option" where
  "questionsOf first = (case getProp ''questions'' first of Some (JArr qs) \<Rightarrow> Some qs | _ \<Rightarrow> None)"

text \<open>
  The body of the outer loop, for one question. Its result: the question as the body
  leaves it, and the marks it has assigned (\<open>None\<close> when it has thrown). The subparts are
  changed in place, so they stay changed when the body throws.
\<close>

definition forceQuestion :: "'n numbers \<Rightarrow> 'n json \<Rightarrow> 'n json \<times> 'n option" where
  "forceQuestion nu q =
     (let qMax = numOr0 nu (getProp ''max_marks'' q)
      in if numOr0Throws (getProp ''max_marks'' q) then (q, None)
         else if subpartsOf q \<noteq> [] then
           (let r = forceSubparts nu (subpartsOf q) (num_zero nu);
                q1 = setField ''subparts'' (JArr (fst r)) q
            in if snd (snd r) then (q1, None)
               else (case assign ''marks'' (JNum (fst (snd r))) q1 of
                       None \<Rightarrow> (q1, None)
                     | Some q2 \<Rightarrow>
                         (setField ''remarks''
                            (addNote (getProp ''remarks'' q2) ''Solution key (full marks)'') q2,
                          Some (fst (snd r)))))
         else (case assign ''marks'' (JNum qMax) q of
                 None \<Rightarrow> (q, None)
               | Some q2 \<Rightarrow>
                   (setField ''remarks''
                      (addNote (getProp ''remarks'' q2) ''Solution key (full marks)'') q2,
                    Some qMax)))"

text \<open>
  The outer loop with its accumulator \<^verbatim>\<open>sumMax\<close>
  (\<^verbatim>\<open>sumMax += Number(q.marks || 0);\<close>). Its result: the questions as the loop leaves
  them, \<^verbatim>\<open>sumMax\<close>, and whether it has thrown.
\<close>

fun forceQuestions :: "'n numbers \<Rightarrow> 'n json list \<Rightarrow> 'n \<Rightarrow> 'n json list \<times> 'n \<times> bool" where
  "forceQuestions nu [] sumMax = ([], sumMax, False)"
| "forceQuestions nu (q # qs) sumMax =
     (case forceQuestion nu q of
        (q', None) \<Rightarrow> (q' # qs, sumMax, True)
      | (q', Some m) \<Rightarrow>
          (let r = forceQuestions nu qs (num_add nu sumMax (orZero nu m))
           in (q' # fst r, snd r)))"

text \<open>
  The second pass over the questions, which computes \<^verbatim>\<open>computedMax\<close> and assigns
  nothing; \<open>None\<close> when a conversion throws.
\<close>

fun sumSubparts :: "'n numbers \<Rightarrow> 'n json list \<Rightarrow> 'n \<Rightarrow> 'n option" where
  "sumSubparts nu [] acc = Some acc"
| "sumSubparts nu (sp # sps) acc =
     (if numOr0Throws (getProp ''max_marks'' sp) then None
      else sumSubparts nu sps (num_add nu acc (numOr0 nu (getProp ''max_marks'' sp))))"

fun computeMax :: "'n numbers \<Rightarrow> 'n json list \<Rightarrow> 'n \<Rightarrow> 'n option" where
  "computeMax nu [] acc = Some acc"
| "computeMax nu (q # qs) acc =
     (if subpartsOf q \<noteq> [] then
        (case sumSubparts nu (subpartsOf q) acc of
           None \<Rightarrow> None
         | Some acc' \<Rightarrow> computeMax nu qs acc')
      else if numOr0Throws (getProp ''max_marks'' q) then None
      else computeMax nu qs (num_add nu acc (numOr0 nu (getProp ''max_marks'' q))))"

text \<open>
  \<^verbatim>\<open>const name = (first.student_name || "Unknown Student").toString().trim();\<close>
  \<open>None\<close> when the conversion throws.
\<close>

definition priorName :: "'n numbers \<Rightarrow> 'n json \<Rightarrow> string option" where
  "priorName nu first =
     (let v = orDefault nu (getProp ''student_name'' first) (JStr ''Unknown Student'')
      in if convertible v then Some (trim (toStr nu v)) else None)"

text \<open>
  The end of the post-processor:
  \<^verbatim>\<open>first.total_score = sumMax;
  first.max_score = Number(first.max_score ?? computedMax ?? sumMax) || sumMax;\<close>
  and the note on \<^verbatim>\<open>first.remarks\<close>. Its result: the record as it leaves it, and whether
  the conversion of \<^verbatim>\<open>first.max_score\<close> has thrown.
\<close>

definition finishRecord :: "'n numbers \<Rightarrow> 'n json \<Rightarrow> 'n \<Rightarrow> 'n \<Rightarrow> 'n json \<times> bool" where
  "finishRecord nu first sumMax computedMax =
     (let first1 = setField ''total_score'' (JNum sumMax) first
      in if numOr0Throws (getProp ''max_score'' first1) then (first1, True)
         else
           (let ms = (case getProp ''max_score'' first1 of
                        None \<Rightarrow> (if num_falsy nu computedMax then sumMax else computedMax)
                      | Some JNull \<Rightarrow> (if num_falsy nu computedMax then sumMax else computedMax)
                      | Some v \<Rightarrow> numberOr nu v sumMax);
                first2 = setField ''max_score'' (JNum ms) first1
            in (setField ''remarks''
                  (addNote (getProp ''remarks'' first2) ''Solution paper (awarded full marks).'')
                  first2, False)))"

text \<open>
  \<^verbatim>\<open>forceSolutionFullMarks(first)\<close>. Its result: the value as the call leaves it, and
  whether the call has thrown. The guard \<^verbatim>\<open>if (!first || typeof first !== "object")
  return;\<close> lets objects and arrays pass. An array has none of the properties that the
  function reads, so it takes the name \<^verbatim>\<open>Unknown Student\<close>, skips both loops and sets
  properties of the array object only: its JSON value stays.
  For an object: the name
  \<^verbatim>\<open>first.student_name = `${name} ${name}`.trim();\<close>, the two loops and the end.
\<close>

definition forceSolutionFullMarks :: "'n numbers \<Rightarrow> 'n json \<Rightarrow> 'n json \<times> bool" where
  "forceSolutionFullMarks nu first =
     (case first of
        JObj ps \<Rightarrow>
          (case priorName nu first of
             None \<Rightarrow> (first, True)
           | Some name \<Rightarrow>
              (let first1 = setField ''student_name'' (JStr (trim (name @ '' '' @ name))) first
               in (case questionsOf first1 of
                     None \<Rightarrow> finishRecord nu first1 (num_zero nu) (num_zero nu)
                   | Some qs \<Rightarrow>
                       (let r = forceQuestions nu qs (num_zero nu);
                            first2 = setField ''questions'' (JArr (fst r)) first1
                        in if snd (snd r) then (first2, True)
                           else (case computeMax nu (fst r) (num_zero nu) of
                                   None \<Rightarrow> (first2, True)
                                 | Some computedMax \<Rightarrow>
                                     finishRecord nu first2 (fst (snd r)) computedMax)))))
      | _ \<Rightarrow> (first, False))"

text \<open>
  The call site in the analyze-quiz handler:
  \<^verbatim>\<open>if (useSolutionKeyClean && Array.isArray(parsedArray) && parsedArray.length > 0) {
    try { forceSolutionFullMarks(parsedArray[0]); }
    catch (e) { console.warn("Could not enforce solution full marks:", e?.message); } }\<close>
  What the call throws is caught and logged, and the array, with its first element as the
  call has left it, goes on to \<^verbatim>\<open>graded_json: parsedArray ?? null\<close>: the result is the
  JSON value that is persisted.
\<close>

definition applySolutionKey :: "'n numbers \<Rightarrow> bool \<Rightarrow> 'n json list option \<Rightarrow> 'n json list option" where
  "applySolutionKey nu useSolutionKey parsedArray =
     (case parsedArray of
        None \<Rightarrow> None
      | Some arr \<Rightarrow>
         (case arr of
            [] \<Rightarrow> Some []
          | first # rest \<Rightarrow>
              if useSolutionKey then Some (fst (forceSolutionFullMarks nu first) # rest)
              else Some arr))"

text \<open>
  A record on which the post-processor throws nothing: the record, its questions and their
  subparts are objects, and the values that it converts (the name, every \<^verbatim>\<open>max_marks\<close>
  and \<^verbatim>\<open>max_score\<close>) convert.
\<close>

definition isObj :: "'n json \<Rightarrow> bool" where
  "isObj v = (case v of JObj ps \<Rightarrow> True | _ \<Rightarrow> False)"

definition converts :: "string \<Rightarrow> 'n json \<Rightarrow> bool" where
  "converts k v = (case getProp k v of None \<Rightarrow> True | Some x \<Rightarrow> convertible x)"

definition objectSubpart :: "'n json \<Rightarrow> bool" where
  "objectSubpart sp = (isObj sp \<and> converts ''max_marks'' sp)"

definition objectQuestion :: "'n json \<Rightarrow> bool" where
  "objectQuestion q =
     (isObj q \<and> converts ''max_marks'' q \<and> list_all objectSubpart (subpartsOf q))"

definition objectRecord :: "'n json \<Rightarrow> bool" where
  "objectRecord first =
     (isObj first \<and> converts ''student_name'' first \<and> converts ''max_score'' first \<and>
      (case questionsOf first of None \<Rightarrow> True | Some qs \<Rightarrow> list_all objectQuestion qs))"

text \<open>
  The name that the post-processor repeats: the trimmed string of \<^verbatim>\<open>student_name\<close>, or
  of \<^verbatim>\<open>Unknown Student\<close> when the record has no name, or null, false, a falsy number or
  the empty string for one.
\<close>

definition nameOf :: "'n numbers \<Rightarrow> 'n json \<Rightarrow> string" where
  "nameOf nu first =
     trim (toStr nu (orDefault nu (getProp ''student_name'' first) (JStr ''Unknown Student'')))"

text \<open>
  The sum of the \<^verbatim>\<open>max_marks\<close> of the subparts of a question, as the inner loop adds it
  up, and the marks that a question holds after the post-processor, as the outer loop
  reads them (\<^verbatim>\<open>Number(q.marks || 0)\<close>).
\<close>

definition subpartsTotal :: "'n numbers \<Rightarrow> 'n json \<Rightarrow> 'n" where
  "subpartsTotal nu q =
     foldl (\<lambda>a sp. num_add nu a (numOr0 nu (getProp ''max_marks'' sp))) (num_zero nu)
       (subpartsOf q)"

definition awardedMarks :: "'n numbers \<Rightarrow> 'n json \<Rightarrow> 'n" where
  "awardedMarks nu q =
     (case getProp ''marks'' q of Some (JNum m) \<Rightarrow> orZero nu m | _ \<Rightarrow> num_zero nu)"

section \<open>Notions used in the statements and proofs\<close>

text \<open>No two neighbouring characters of a text are both white space.\<close>

fun noAdjacentWs :: "string \<Rightarrow> bool" where
  "noAdjacentWs (a # b # cs) = (\<not> (isWhiteSpace a \<and> isWhiteSpace b) \<and> noAdjacentWs (b # cs))"
| "noAdjacentWs [a] = True"
| "noAdjacentWs [] = True"

text \<open>
  The wrapper of an adapter has returned a text that is meaningful, or one that is not
  (neither holds when the wrapper has thrown).
\<close>

definition meaningful :: "(adapter \<Rightarrow> outcome) \<Rightarrow> adapter \<Rightarrow> bool" where
  "meaningful env a = (case tryAdapter env a of Inl err \<Rightarrow> False | Inr t \<Rightarrow> isMeaningful t)"

definition notMeaningful :: "(adapter \<Rightarrow> outcome) \<Rightarrow> adapter \<Rightarrow> bool" where
  "notMeaningful env a =
     (case tryAdapter env a of Inl err \<Rightarrow> False | Inr t \<Rightarrow> \<not> isMeaningful t)"

text \<open>
  The questions of a record (none when \<^verbatim>\<open>questions\<close> is not an array), and what the
  post-processor does to a subpart and to a question: the marks are the \<^verbatim>\<open>max_marks\<close>,
  the \<^verbatim>\<open>max_marks\<close> stay, the note is added to the remarks. For a question the marks are
  stated when its maxima agree: it has no subparts, or its \<^verbatim>\<open>max_marks\<close> is the sum of
  the \<^verbatim>\<open>max_marks\<close> of its subparts.
\<close>

definition questionsList :: "'n json \<Rightarrow> 'n json list" where
  "questionsList first = (case questionsOf first of None \<Rightarrow> [] | Some qs \<Rightarrow> qs)"

definition fullMarksSubpart :: "'n numbers \<Rightarrow> 'n json \<Rightarrow> 'n json \<Rightarrow> bool" where
  "fullMarksSubpart nu sp sp' =
     (getProp ''marks'' sp' = Some (JNum (numOr0 nu (getProp ''max_marks'' sp)))
      \<and> getProp ''max_marks'' sp' = getProp ''max_marks'' sp
      \<and> getProp ''remarks'' sp'
          = Some (addNote (getProp ''remarks'' sp) ''Solution key (full marks)''))"

definition consistentMaxima :: "'n numbers \<Rightarrow> 'n json \<Rightarrow> bool" where
  "consistentMaxima nu q =
     (subpartsOf q = [] \<or> subpartsTotal nu q = numOr0 nu (getProp ''max_marks'' q))"

definition fullMarksQuestion :: "'n numbers \<Rightarrow> 'n json \<Rightarrow> 'n json \<Rightarrow> bool" where
  "fullMarksQuestion nu q q' =
     ((consistentMaxima nu q
         \<longrightarrow> getProp ''marks'' q' = Some (JNum (numOr0 nu (getProp ''max_marks'' q))))
      \<and> getProp ''max_marks'' q' = getProp ''max_marks'' q
      \<and> getProp ''remarks'' q'
          = Some (addNote (getProp ''remarks'' q) ''Solution key (full marks)'')
      \<and> list_all2 (fullMarksSubpart nu) (subpartsOf q) (subpartsOf q'))"

section \<open>Example inputs\<close>

definition newline :: string where
  "newline = [CHR 0x0A]"

definition example_quiz :: quiz where
  "example_quiz = \<lparr>original_pdf = Some ''uploads/quiz1.pdf'', title = Some ''Quiz 1'',
                    quiz_section = Some ''Section A'', no_of_pages = Some 1,
                    read_first_paper_is_solution = Some False, graded_json = None\<rparr>"

text \<open>A scanned PDF: no embedded text, the cloud OCR fails, the vision model reads the page.\<close>

definition example_adapters :: "OcrNamingContext \<Rightarrow> adapter \<Rightarrow> outcome" where
  "example_adapters ctx a =
     (case a of
        PdfParse \<Rightarrow> Returns ''  ''
      | VisionPdf \<Rightarrow> Throws ''quota exceeded''
      | OpenAIOCR \<Rightarrow> Returns (''Name: '' @ unknownName ctx @ newline @ ''Roll: 12'' @ newline
                               @ ''----'' @ newline @ ''Answer 1: photosynthesis'')
      | _ \<Rightarrow> Returns [])"

definition example_request :: request_env where
  "example_request = \<lparr>engine_param = None, quiz_row = Some example_quiz, download_ok = True,
                       adapters = example_adapters, update_error = Some ''update failed'',
                       unlink_error = None\<rparr>"

text \<open>
  A run in which the call of pdf-parse rejects with \<^verbatim>\<open>undefined\<close>, and a run with the engine
  \<^verbatim>\<open>openai-ocr\<close> on a PDF of two pages, whose texts the adapter joins with a blank line
  (\<^verbatim>\<open>out.join("\n\n")\<close>).
\<close>

definition example_rejecting_adapters :: "OcrNamingContext \<Rightarrow> adapter \<Rightarrow> outcome" where
  "example_rejecting_adapters ctx a =
     (case a of PdfParse \<Rightarrow> ThrowsUndefined | _ \<Rightarrow> Returns [])"

definition example_rejecting_request :: request_env where
  "example_rejecting_request =
     \<lparr>engine_param = None, quiz_row = Some example_quiz, download_ok = True,
      adapters = example_rejecting_adapters, update_error = None, unlink_error = None\<rparr>"

definition example_page_one :: string where
  "example_page_one = ''Name: Jane'' @ newline @ ''Roll: 12'' @ newline @ ''----'' @ newline
                      @ ''Answer one: photosynthesis''"

definition example_page_two :: string where
  "example_page_two = ''Name: Ali'' @ newline @ ''Roll: 13'' @ newline @ ''----'' @ newline
                      @ ''Answer two: mitochondria''"

definition example_two_page_request :: request_env where
  "example_two_page_request =
     \<lparr>engine_param = Some ''openai-ocr'', quiz_row = Some example_quiz, download_ok = True,
      adapters = (\<lambda>ctx a. Returns (example_page_one @ newline @ newline @ example_page_two)),
      update_error = None, unlink_error = None\<rparr>"

definition example_provided :: StudentGraded where
  "example_provided = emptyStudent\<lparr>page_indices :=
      Some [JInt 5, JOther, JInt 2, JInt 5, JInt 9, JInt (- 1)]\<rparr>"

definition example_header_page :: string where
  "example_header_page = ''Name: Jane'' @ newline @ ''Roll: 12'' @ newline @ ''----''"

definition example_score :: "int \<Rightarrow> StudentGraded" where
  "example_score n = emptyStudent\<lparr>total_score := Some n\<rparr>"

definition example_graded_quiz :: "int \<Rightarrow> bool \<Rightarrow> StudentGraded list \<Rightarrow> quiz" where
  "example_graded_quiz pps sol graded =
     example_quiz\<lparr>no_of_pages := Some pps, read_first_paper_is_solution := Some sol,
                  graded_json := Some graded\<rparr>"

definition example_untitled_quiz :: quiz where
  "example_untitled_quiz = example_quiz\<lparr>title := None, quiz_section := None\<rparr>"

definition example_punctuated_quiz :: quiz where
  "example_punctuated_quiz = example_quiz\<lparr>title := Some ''Quiz 1 ?'', quiz_section := None\<rparr>"

text \<open>
  Numbers for the examples: integers, which doubles hold and add exactly below \<open>2^53\<close>,
  with decimal numerals for the two conversions (a string that is no numeral converts to
  a falsy number, as NaN is).
\<close>

function showNat :: "nat \<Rightarrow> string" where
  "showNat n = (if n < 10 then [char_of (48 + n)]
                else showNat (n div 10) @ [char_of (48 + n mod 10)])"
  by pat_completeness auto
termination
  by (relation "measure (\<lambda>n. n)") auto

definition isDigit :: "char \<Rightarrow> bool" where
  "isDigit c = (48 \<le> code c \<and> code c \<le> 57)"

definition exampleNumbers :: "int numbers" where
  "exampleNumbers =
     \<lparr>num_add = (\<lambda>a b. a + b), num_zero = 0, num_one = 1, num_falsy = (\<lambda>n. n = 0),
      num_of_string = (\<lambda>t. if t \<noteq> [] \<and> list_all isDigit t
                              then foldl (\<lambda>a c. 10 * a + (int (code c) - 48)) 0 t else 0),
      num_to_string = (\<lambda>n. if n < 0 then ''-'' @ showNat (nat (- n)) else showNat (nat n))\<rparr>"

definition example_subpart :: "string \<Rightarrow> int \<Rightarrow> int json" where
  "example_subpart l mx =
     JObj [(''label'', JStr l), (''marks'', JNum 1), (''max_marks'', JNum mx),
           (''remarks'', JStr ''ok'')]"

definition example_question :: "int \<Rightarrow> int \<Rightarrow> int json list \<Rightarrow> int json" where
  "example_question n mx sps =
     JObj [(''number'', JNum n), (''marks'', JNum 2), (''max_marks'', JNum mx),
           (''subparts'', JArr sps)]"

text \<open>
  A solution record whose maxima agree (7 = 3 + 4), one whose maxima do not
  (10 against 3 + 4), one without a name, and one with a question that is null.
\<close>

definition example_solution :: "int json" where
  "example_solution =
     JObj [(''student_name'', JStr ''solution_paper_quiz_1''), (''total_score'', JNum 3),
           (''questions'', JArr [example_question 1 7 [example_subpart ''a'' 3,
                                                        example_subpart ''b'' 4],
                                 example_question 2 5 []])]"

definition example_inconsistent_solution :: "int json" where
  "example_inconsistent_solution =
     JObj [(''student_name'', JStr ''solution_paper_quiz_1''), (''total_score'', JNum 3),
           (''questions'', JArr [example_question 1 10 [example_subpart ''a'' 3,
                                                         example_subpart ''b'' 4]])]"

definition example_unnamed_solution :: "int json" where
  "example_unnamed_solution =
     JObj [(''student_name'', JNull), (''questions'', JArr [example_question 1 5 []])]"

definition example_odd_name_solution :: "int json" where
  "example_odd_name_solution =
     JObj [(''student_name'', JObj [(''toString'', JNum 1)]),
           (''questions'', JArr [example_question 1 5 []])]"

definition example_broken_solution :: "int json" where
  "example_broken_solution =
     JObj [(''student_name'', JStr ''Jane''),
           (''questions'', JArr [example_question 1 5 [], JNull])]"

section \<open>Text normalisation: proofs\<close>

lemma set_replaceRuns: "set (replaceRuns C k rep s) \<subseteq> set s \<union> set rep"
proof (induction C k rep s rule: replaceRuns.induct)
  case (1 C k rep)
  show ?case by simp
next
  case (2 C k rep c cs)
  have d: "set (dropWhile C cs) \<subseteq> set cs" by (auto dest: set_dropWhileD)
  have t: "set (takeWhile C cs) \<subseteq> set cs" by (auto dest: set_takeWhileD)
  show ?case
  proof (cases "C c")
    case True
    with 2 d t show ?thesis by auto
  next
    case False
    with 2 show ?thesis by auto
  qed
qed

lemma set_trim: "set (trim s) \<subseteq> set s"
proof -
  have "set (trimEnd t) \<subseteq> set t" for t
    unfolding trimEnd_def using set_dropWhileD[of _ isWhiteSpace "rev t"] by auto
  moreover have "set (trimStart s) \<subseteq> set s"
    unfolding trimStart_def using set_dropWhileD[of _ isWhiteSpace s] by auto
  ultimately show ?thesis unfolding trim_def by blast
qed

lemma noAdjacentWs_Cons:
  "noAdjacentWs (a # xs) = ((xs = [] \<or> \<not> (isWhiteSpace a \<and> isWhiteSpace (hd xs))) \<and> noAdjacentWs xs)"
  by (cases xs) auto

lemma hd_collapse:
  "replaceRuns isWhiteSpace 2 '' '' s \<noteq> [] \<Longrightarrow> isWhiteSpace (hd (replaceRuns isWhiteSpace 2 '' '' s))
   \<Longrightarrow> s \<noteq> [] \<and> isWhiteSpace (hd s)"
  by (cases s) (auto split: if_splits)

lemma space_ws: "isWhiteSpace CHR '' ''"
  by (simp add: isWhiteSpace_def code_def)

lemma noAdjacentWs_collapse: "noAdjacentWs (replaceRuns isWhiteSpace 2 '' '' s)"
proof (induction "isWhiteSpace" "2::nat" "'' ''" s rule: replaceRuns.induct)
  case 1
  show ?case by simp
next
  case (2 c cs)
  show ?case
  proof (cases "isWhiteSpace c")
    case True
    let ?rest = "dropWhile isWhiteSpace cs"
    let ?r = "replaceRuns isWhiteSpace 2 '' '' ?rest"
    have ih: "noAdjacentWs ?r" using 2(1) True by simp
    have nw: "?r = [] \<or> \<not> isWhiteSpace (hd ?r)"
    proof (cases "?r = []")
      case False
      show ?thesis
      proof (rule disjI2, rule notI)
        assume "isWhiteSpace (hd ?r)"
        with False have "?rest \<noteq> [] \<and> isWhiteSpace (hd ?rest)" by (rule hd_collapse)
        then show False using hd_dropWhile[of isWhiteSpace cs] by simp
      qed
    qed simp
    have "\<exists>w. isWhiteSpace w \<and> replaceRuns isWhiteSpace 2 '' '' (c # cs) = w # ?r"
    proof (cases "takeWhile isWhiteSpace cs = []")
      case True
      then show ?thesis using \<open>isWhiteSpace c\<close> by simp
    next
      case False
      then have "2 \<le> Suc (length (takeWhile isWhiteSpace cs))" by (cases "takeWhile isWhiteSpace cs") auto
      then show ?thesis using \<open>isWhiteSpace c\<close> space_ws by auto
    qed
    then obtain w where "isWhiteSpace w" and e: "replaceRuns isWhiteSpace 2 '' '' (c # cs) = w # ?r" by blast
    show ?thesis unfolding e using ih nw by (simp add: noAdjacentWs_Cons)
  next
    case False
    then show ?thesis using 2(2) by (simp add: noAdjacentWs_Cons)
  qed
qed

lemma newline_ws: "isNewline c \<Longrightarrow> isWhiteSpace c"
  by (simp add: isNewline_def isWhiteSpace_def)

lemma replaceRuns_id:
  assumes sub: "\<And>c. C c \<Longrightarrow> isWhiteSpace c" and k: "2 \<le> k"
  shows "noAdjacentWs s \<Longrightarrow> replaceRuns C k rep s = s"
proof (induction s)
  case Nil
  show ?case by simp
next
  case (Cons c cs)
  from Cons.prems have tl: "noAdjacentWs cs" by (simp add: noAdjacentWs_Cons)
  show ?case
  proof (cases "C c")
    case True
    then have "isWhiteSpace c" by (rule sub)
    with Cons.prems have "cs = [] \<or> \<not> isWhiteSpace (hd cs)" by (simp add: noAdjacentWs_Cons)
    then have "cs = [] \<or> \<not> C (hd cs)" using sub by blast
    then have t: "takeWhile C cs = []" and d: "dropWhile C cs = cs" by (cases cs; auto)+
    show ?thesis using True t d k Cons.IH[OF tl] by simp
  next
    case False
    then show ?thesis using Cons.IH[OF tl] by simp
  qed
qed

lemma noAdjacentWs_append: "noAdjacentWs (xs @ ys) \<Longrightarrow> noAdjacentWs xs \<and> noAdjacentWs ys"
proof (induction xs)
  case Nil
  then show ?case by simp
next
  case (Cons a xs)
  then show ?case by (cases xs) (auto simp: noAdjacentWs_Cons)
qed

lemma trimEnd_prefix: "trimEnd s @ rev (takeWhile isWhiteSpace (rev s)) = s"
proof -
  have "rev (takeWhile isWhiteSpace (rev s) @ dropWhile isWhiteSpace (rev s)) = s" by simp
  then show ?thesis unfolding trimEnd_def by (simp del: takeWhile_dropWhile_id)
qed

lemma noAdjacentWs_trim: "noAdjacentWs s \<Longrightarrow> noAdjacentWs (trim s)"
proof -
  assume a: "noAdjacentWs s"
  have "takeWhile isWhiteSpace s @ trimStart s = s" by (simp add: trimStart_def)
  with a have b: "noAdjacentWs (trimStart s)" using noAdjacentWs_append by metis
  have "trimEnd (trimStart s) @ rev (takeWhile isWhiteSpace (rev (trimStart s))) = trimStart s"
    by (rule trimEnd_prefix)
  with b show ?thesis unfolding trim_def using noAdjacentWs_append by metis
qed

lemma trimStart_id: "s = [] \<or> \<not> isWhiteSpace (hd s) \<Longrightarrow> trimStart s = s"
  by (cases s) (auto simp: trimStart_def)

lemma trimEnd_idem: "trimEnd (trimEnd s) = trimEnd s"
  by (simp add: trimEnd_def)

lemma hd_trimEnd: "trimEnd s \<noteq> [] \<Longrightarrow> hd (trimEnd s) = hd s"
  using trimEnd_prefix[of s] by (metis hd_append2)

lemma trim_idem: "trim (trim s) = trim s"
proof -
  let ?t = "trimStart s"
  have h: "?t = [] \<or> \<not> isWhiteSpace (hd ?t)"
    unfolding trimStart_def using hd_dropWhile[of isWhiteSpace s] by blast
  have "trimEnd ?t = [] \<or> \<not> isWhiteSpace (hd (trimEnd ?t))"
  proof (cases "trimEnd ?t = []")
    case False
    then have "?t \<noteq> []" by (auto simp: trimEnd_def)
    with h False show ?thesis by (simp add: hd_trimEnd)
  qed simp
  then have "trimStart (trimEnd ?t) = trimEnd ?t" by (rule trimStart_id)
  then show ?thesis by (simp add: trim_def trimEnd_idem)
qed

lemma safe_stripGarbage: "c \<in> set (stripGarbage r) \<Longrightarrow> isSafeChar c"
proof -
  assume "c \<in> set (stripGarbage r)"
  then have "c \<in> set (replaceRuns isWhiteSpace 2 '' '' (filter isSafeChar r))"
    unfolding stripGarbage_def using set_trim by blast
  then have "c \<in> set (filter isSafeChar r) \<union> set '' ''" using set_replaceRuns by blast
  then show ?thesis by (auto simp: isSafeChar_def code_def)
qed

lemma clean_eq_strip: "cleanExtractedText r = stripGarbage r"
  unfolding cleanExtractedText_def stripGarbage_def
  using replaceRuns_id[of isNewline 3, OF newline_ws _ noAdjacentWs_collapse] by simp

lemma stripGarbage_idem: "stripGarbage (stripGarbage r) = stripGarbage r"
proof -
  let ?z = "stripGarbage r"
  have f: "filter isSafeChar ?z = ?z" using safe_stripGarbage by (simp add: filter_id_conv)
  have n: "noAdjacentWs ?z" unfolding stripGarbage_def by (rule noAdjacentWs_trim[OF noAdjacentWs_collapse])
  have c: "replaceRuns isWhiteSpace 2 '' '' ?z = ?z" by (rule replaceRuns_id[OF _ _ n]) simp_all
  have "stripGarbage ?z = trim ?z" unfolding stripGarbage_def[of ?z] f c ..
  also have "\<dots> = ?z" unfolding stripGarbage_def[of r] by (rule trim_idem)
  finally show ?thesis .
qed

lemma persisted_text_safe:
  assumes "persisted (process_quiz env ctx) = Some t"
  shows "list_all isSafeChar t \<and> stripGarbage t = t"
proof -
  from assms obtain raw where "t = cleanExtractedText raw"
    by (auto simp: process_quiz_def Let_def split: option.splits sum.splits if_splits)
  then have t: "t = stripGarbage raw" by (simp add: clean_eq_strip)
  have "list_all isSafeChar (stripGarbage raw)"
    using safe_stripGarbage by (simp add: list_all_iff)
  then show ?thesis unfolding t by (simp add: stripGarbage_idem)
qed

text \<open>
  Claim C9. The text written to \<^verbatim>\<open>extracted_text\<close> is \<^verbatim>\<open>cleanExtractedText\<close> of the
  result of the engine selection; it has only printable ASCII characters and line feeds
  (\<open>persisted_text_safe\<close>). It does not keep every line feed that separates two lines: the
  second replacement of \<^verbatim>\<open>cleanExtractedText\<close>, \<^verbatim>\<open>.replace(/\s{2,}/g, " ")\<close>, turns
  each run of two or more white-space characters into one space, line feeds included, so the
  third one, \<^verbatim>\<open>.replace(/\n{3,}/g, "\n\n")\<close>, never finds a run of line feeds. For the PDF
  of two pages, of four lines each, the engine returns a text with eight line feeds and the
  text persisted has six: the blank line between the pages is one space, and the last line
  of the first page and the first line of the second are one line. A line feed after a
  space is lost in the same way.
\<close>

theorem persisted_text_loses_blank_line:
  "fst (cascade (adapters example_two_page_request (populate_ctx example_quiz)) ''openai-ocr'')
     = Inr (example_page_one @ newline @ newline @ example_page_two)
   \<and> persisted (process_quiz example_two_page_request initial_ctx)
       = Some (example_page_one @ '' '' @ example_page_two)
   \<and> cleanExtractedText (''a'' @ newline @ newline @ ''b'') = ''a b''
   \<and> cleanExtractedText (''line one '' @ newline @ ''line two'') = ''line one line two''
   \<and> length (filter isNewline (example_page_one @ newline @ newline @ example_page_two)) = 8
   \<and> length (filter isNewline (example_page_one @ '' '' @ example_page_two)) = 6"
  by code_simp

section \<open>The engine selection: proofs\<close>

lemma run_noText: "run env a noText = (tryAdapter env a, [a])"
  by (simp add: run_def noText_def)

lemma orElse_Inl: "orElse env a (Inl err, tr) = (Inl err, tr)"
  by (simp add: orElse_def)

lemma orElse_Inr:
  "orElse env a (Inr t, tr) = (if isMeaningful t then (Inr t, tr) else (tryAdapter env a, tr @ [a]))"
  by (simp add: orElse_def run_def)

text \<open>A wrapper has returned a text that is not meaningful, or one that is.\<close>

lemma orElse_stops:
  assumes "\<not> notMeaningful env a"
  shows "orElse env b (tryAdapter env a, tr) = (tryAdapter env a, tr)"
  using assms by (cases "tryAdapter env a") (simp_all add: notMeaningful_def orElse_Inl orElse_Inr)

lemma orElse_goes_on:
  assumes "notMeaningful env a"
  shows "orElse env b (tryAdapter env a, tr) = (tryAdapter env b, tr @ [b])"
  using assms by (cases "tryAdapter env a") (simp_all add: notMeaningful_def orElse_Inr)

lemma cascade_auto_unfold:
  "cascade env ''auto'' =
     orElse env Tesseract (orElse env Images (orElse env GeminiOCR
       (orElse env OpenAIOCR (orElse env VisionPdf (tryAdapter env PdfParse, [PdfParse])))))"
  by (simp add: cascade_def run_noText)

lemma stop_or_crash:
  "\<not> notMeaningful env a \<Longrightarrow> meaningful env a \<or> isl (tryAdapter env a)"
  by (cases "tryAdapter env a") (simp_all add: notMeaningful_def meaningful_def)

lemma no_crash_Inr:
  assumes "\<forall>a. env a \<noteq> ThrowsUndefined \<and> env a \<noteq> ThrowsNull"
  shows "\<not> isl (tryAdapter env a) \<and> (notMeaningful env a \<longleftrightarrow> \<not> meaningful env a)"
proof -
  from assms have "env a \<noteq> ThrowsUndefined" "env a \<noteq> ThrowsNull" by blast+
  then obtain t where "tryAdapter env a = Inr t"
    by (cases "env a") (simp_all add: tryAdapter_def)
  then show ?thesis by (simp add: notMeaningful_def meaningful_def)
qed

text \<open>
  Claim C4. In the \<^verbatim>\<open>auto\<close> mode the adapters called are a prefix of pdf-parse, cloud
  native-PDF OCR, OpenAI OCR, Gemini OCR, image-variant cloud OCR, Tesseract, in that order;
  each later adapter is called if and only if every earlier one has returned a result that
  is not meaningful; the outcome is that of the last adapter called, which is the first
  meaningful result or, when no result is meaningful, the result of Tesseract. A result is
  meaningful when it has at least 30 alphanumeric characters. A wrapper returns a result
  (the empty text when its adapter throws an error) unless its adapter throws
  \<^verbatim>\<open>undefined\<close> or \<^verbatim>\<open>null\<close>: then the selection ends there, with a TypeError; when no
  adapter does, every result is meaningful or not meaningful.
\<close>

theorem auto_cascade_order:
  fixes env
  defines "M \<equiv> meaningful env" and "N \<equiv> notMeaningful env"
  defines "res \<equiv> fst (cascade env ''auto'')"
  defines "trace \<equiv> snd (cascade env ''auto'')"
  shows "trace = take (length trace) [PdfParse, VisionPdf, OpenAIOCR, GeminiOCR, Images, Tesseract]
       \<and> PdfParse \<in> set trace
       \<and> (VisionPdf \<in> set trace \<longleftrightarrow> N PdfParse)
       \<and> (OpenAIOCR \<in> set trace \<longleftrightarrow> N PdfParse \<and> N VisionPdf)
       \<and> (GeminiOCR \<in> set trace \<longleftrightarrow> N PdfParse \<and> N VisionPdf \<and> N OpenAIOCR)
       \<and> (Images \<in> set trace \<longleftrightarrow> N PdfParse \<and> N VisionPdf \<and> N OpenAIOCR \<and> N GeminiOCR)
       \<and> (Tesseract \<in> set trace \<longleftrightarrow>
            N PdfParse \<and> N VisionPdf \<and> N OpenAIOCR \<and> N GeminiOCR \<and> N Images)
       \<and> res = tryAdapter env (last trace)
       \<and> list_all N (butlast trace)
       \<and> (M (last trace) \<or> isl res
            \<or> (trace = [PdfParse, VisionPdf, OpenAIOCR, GeminiOCR, Images, Tesseract]
                \<and> res = tryAdapter env Tesseract))
       \<and> ((\<forall>a. env a \<noteq> ThrowsUndefined \<and> env a \<noteq> ThrowsNull)
            \<longrightarrow> \<not> isl res \<and> (\<forall>a. N a \<longleftrightarrow> \<not> M a)
                \<and> (\<forall>a. M a \<longleftrightarrow> isMeaningful (projr (tryAdapter env a))))
       \<and> (\<forall>s. isMeaningful s \<longleftrightarrow> 30 \<le> length (filter isAlnum s))"
proof -
  have m: "\<forall>s. isMeaningful s \<longleftrightarrow> 30 \<le> length (filter isAlnum s)"
    by (simp add: isMeaningful_def)
  have proj: "(\<forall>a. env a \<noteq> ThrowsUndefined \<and> env a \<noteq> ThrowsNull)
       \<longrightarrow> (\<forall>a. M a \<longleftrightarrow> isMeaningful (projr (tryAdapter env a)))"
  proof (intro impI allI)
    fix a assume "\<forall>a. env a \<noteq> ThrowsUndefined \<and> env a \<noteq> ThrowsNull"
    then have "\<not> isl (tryAdapter env a)" using no_crash_Inr by blast
    then show "M a \<longleftrightarrow> isMeaningful (projr (tryAdapter env a))"
      by (cases "tryAdapter env a") (simp_all add: M_def meaningful_def)
  qed
  have nc: "(\<forall>a. env a \<noteq> ThrowsUndefined \<and> env a \<noteq> ThrowsNull)
       \<longrightarrow> \<not> isl (tryAdapter env b) \<and> (\<forall>a. N a \<longleftrightarrow> \<not> M a)
           \<and> (\<forall>a. M a \<longleftrightarrow> isMeaningful (projr (tryAdapter env a)))" for b
    using no_crash_Inr [of env] proj unfolding M_def N_def by blast
  note u = cascade_auto_unfold [of env]
  consider (a) "\<not> N PdfParse"
    | (b) "N PdfParse" "\<not> N VisionPdf"
    | (c) "N PdfParse" "N VisionPdf" "\<not> N OpenAIOCR"
    | (d) "N PdfParse" "N VisionPdf" "N OpenAIOCR" "\<not> N GeminiOCR"
    | (e) "N PdfParse" "N VisionPdf" "N OpenAIOCR" "N GeminiOCR" "\<not> N Images"
    | (f) "N PdfParse" "N VisionPdf" "N OpenAIOCR" "N GeminiOCR" "N Images"
    by blast
  then show ?thesis
  proof cases
    case a
    then have s: "\<not> notMeaningful env PdfParse" by (simp add: N_def)
    have c: "cascade env ''auto'' = (tryAdapter env PdfParse, [PdfParse])"
      unfolding u by (simp only: orElse_stops [OF s])
    have r: "res = tryAdapter env PdfParse" "trace = [PdfParse]"
      unfolding res_def trace_def c by simp_all
    have f: "M PdfParse \<or> isl res" unfolding r M_def by (rule stop_or_crash [OF s])
    from a m f nc [of PdfParse] show ?thesis unfolding r by simp
  next
    case b
    then have g: "notMeaningful env PdfParse" and s: "\<not> notMeaningful env VisionPdf"
      by (simp_all add: N_def)
    have c: "cascade env ''auto'' = (tryAdapter env VisionPdf, [PdfParse, VisionPdf])"
      unfolding u by (simp only: orElse_goes_on [OF g] orElse_stops [OF s] append.simps)
    have r: "res = tryAdapter env VisionPdf" "trace = [PdfParse, VisionPdf]"
      unfolding res_def trace_def c by simp_all
    have f: "M VisionPdf \<or> isl res" unfolding r M_def by (rule stop_or_crash [OF s])
    from b m f nc [of VisionPdf] show ?thesis unfolding r by simp
  next
    case c
    then have g: "notMeaningful env PdfParse" "notMeaningful env VisionPdf"
      and s: "\<not> notMeaningful env OpenAIOCR"
      by (simp_all add: N_def)
    have c': "cascade env ''auto'' = (tryAdapter env OpenAIOCR, [PdfParse, VisionPdf, OpenAIOCR])"
      unfolding u
      by (simp only: orElse_goes_on [OF g(1)] orElse_goes_on [OF g(2)] orElse_stops [OF s]
            append.simps)
    have r: "res = tryAdapter env OpenAIOCR" "trace = [PdfParse, VisionPdf, OpenAIOCR]"
      unfolding res_def trace_def c' by simp_all
    have f: "M OpenAIOCR \<or> isl res" unfolding r M_def by (rule stop_or_crash [OF s])
    from c m f nc [of OpenAIOCR] show ?thesis unfolding r by simp
  next
    case d
    then have g: "notMeaningful env PdfParse" "notMeaningful env VisionPdf"
      "notMeaningful env OpenAIOCR"
      and s: "\<not> notMeaningful env GeminiOCR"
      by (simp_all add: N_def)
    have c': "cascade env ''auto''
              = (tryAdapter env GeminiOCR, [PdfParse, VisionPdf, OpenAIOCR, GeminiOCR])"
      unfolding u
      by (simp only: orElse_goes_on [OF g(1)] orElse_goes_on [OF g(2)] orElse_goes_on [OF g(3)]
            orElse_stops [OF s] append.simps)
    have r: "res = tryAdapter env GeminiOCR" "trace = [PdfParse, VisionPdf, OpenAIOCR, GeminiOCR]"
      unfolding res_def trace_def c' by simp_all
    have f: "M GeminiOCR \<or> isl res" unfolding r M_def by (rule stop_or_crash [OF s])
    from d m f nc [of GeminiOCR] show ?thesis unfolding r by simp
  next
    case e
    then have g: "notMeaningful env PdfParse" "notMeaningful env VisionPdf"
      "notMeaningful env OpenAIOCR" "notMeaningful env GeminiOCR"
      and s: "\<not> notMeaningful env Images"
      by (simp_all add: N_def)
    have c': "cascade env ''auto''
              = (tryAdapter env Images, [PdfParse, VisionPdf, OpenAIOCR, GeminiOCR, Images])"
      unfolding u
      by (simp only: orElse_goes_on [OF g(1)] orElse_goes_on [OF g(2)] orElse_goes_on [OF g(3)]
            orElse_goes_on [OF g(4)] orElse_stops [OF s] append.simps)
    have r: "res = tryAdapter env Images"
      "trace = [PdfParse, VisionPdf, OpenAIOCR, GeminiOCR, Images]"
      unfolding res_def trace_def c' by simp_all
    have f: "M Images \<or> isl res" unfolding r M_def by (rule stop_or_crash [OF s])
    from e m f nc [of Images] show ?thesis unfolding r by simp
  next
    case f
    then have g: "notMeaningful env PdfParse" "notMeaningful env VisionPdf"
      "notMeaningful env OpenAIOCR" "notMeaningful env GeminiOCR" "notMeaningful env Images"
      by (simp_all add: N_def)
    have c': "cascade env ''auto''
              = (tryAdapter env Tesseract,
                 [PdfParse, VisionPdf, OpenAIOCR, GeminiOCR, Images, Tesseract])"
      unfolding u
      by (simp only: orElse_goes_on [OF g(1)] orElse_goes_on [OF g(2)] orElse_goes_on [OF g(3)]
            orElse_goes_on [OF g(4)] orElse_goes_on [OF g(5)] append.simps)
    have r: "res = tryAdapter env Tesseract"
      "trace = [PdfParse, VisionPdf, OpenAIOCR, GeminiOCR, Images, Tesseract]"
      unfolding res_def trace_def c' by simp_all
    from f m nc [of Tesseract] show ?thesis unfolding r by simp
  qed
qed


theorem auto_cascade_order_witness:
  "snd (cascade (example_adapters neutral_ctx) ''auto'') = [PdfParse, VisionPdf, OpenAIOCR]
   \<and> fst (cascade (example_adapters neutral_ctx) ''auto'')
       = tryAdapter (example_adapters neutral_ctx) OpenAIOCR
   \<and> notMeaningful (example_adapters neutral_ctx) PdfParse
   \<and> notMeaningful (example_adapters neutral_ctx) VisionPdf
   \<and> meaningful (example_adapters neutral_ctx) OpenAIOCR
   \<and> GeminiOCR \<notin> set (snd (cascade (example_adapters neutral_ctx) ''auto''))
   \<and> cascade (example_rejecting_adapters neutral_ctx) ''auto''
       = (Inl (cannotReadMessageOf ''undefined''), [PdfParse])"
proof -
  have e: "cascade (example_adapters neutral_ctx) ''auto''
           = (tryAdapter (example_adapters neutral_ctx) OpenAIOCR,
              [PdfParse, VisionPdf, OpenAIOCR])"
    by code_simp
  have m: "notMeaningful (example_adapters neutral_ctx) PdfParse"
    "notMeaningful (example_adapters neutral_ctx) VisionPdf"
    "meaningful (example_adapters neutral_ctx) OpenAIOCR"
    by code_simp+
  have c: "cascade (example_rejecting_adapters neutral_ctx) ''auto''
       = (Inl (cannotReadMessageOf ''undefined''), [PdfParse])"
    by code_simp
  show ?thesis
    using auto_cascade_order [of "example_adapters neutral_ctx"] m c by (simp add: e)
qed

section \<open>The naming context: proofs\<close>

lemma ctx_after_process_quiz:
  "ctx_after (process_quiz env ctx)
     = (case quiz_row env of
          None \<Rightarrow> ctx
        | Some q \<Rightarrow>
            if \<not> download_ok env then ctx
            else if isl (fst (cascade (adapters env (populate_ctx q))
                               (case engine_param env of None \<Rightarrow> ''auto''
                                | Some e \<Rightarrow> (if e = [] then ''auto'' else e))))
                 then populate_ctx q
                 else neutral_ctx)"
  by (simp add: process_quiz_def Let_def split: option.splits sum.splits)

text \<open>
  Claim C3. The reset \<^verbatim>\<open>CURRENT_OCR_CTX = { firstIsSolution: false, quizTitle: null,
  section: null, pagesPerStudent: 1 }\<close> is an assignment that follows the engine selection;
  no \<^verbatim>\<open>finally\<close> holds it. A run that has populated the context resets it when the engine
  selection returns (\<open>ctx_after_process_quiz\<close>), also when the update of the row fails
  afterwards. It does not when the selection throws: in the run below the call of pdf-parse
  rejects with \<^verbatim>\<open>undefined\<close>, the \<^verbatim>\<open>catch (e)\<close> of \<^verbatim>\<open>tryPdfParse\<close> throws a TypeError on
  \<^verbatim>\<open>e.message\<close>, the handler answers 500, and the context keeps the title and the
  section of the quiz.
\<close>

theorem naming_context_left_populated:
  "quiz_row example_rejecting_request = Some example_quiz
   \<and> download_ok example_rejecting_request
   \<and> adapters example_rejecting_request (populate_ctx example_quiz) PdfParse = ThrowsUndefined
   \<and> called (process_quiz example_rejecting_request initial_ctx) = [PdfParse]
   \<and> reply (process_quiz example_rejecting_request initial_ctx)
       = Status500 (cannotReadMessageOf ''undefined'')
   \<and> ctx_after (process_quiz example_rejecting_request initial_ctx)
       = \<lparr>firstIsSolution = False, quizTitle = Str ''Quiz 1'', sectionName = Str ''Section A'',
          pagesPerStudent = 1\<rparr>
   \<and> ctx_after (process_quiz example_rejecting_request initial_ctx) \<noteq> neutral_ctx
   \<and> reply (process_quiz example_request initial_ctx) = Status500 ''update failed''
   \<and> ctx_after (process_quiz example_request initial_ctx) = neutral_ctx"
  by code_simp

section \<open>The even split: proofs\<close>

lemma arrayFrom_append:
  assumes "0 \<le> a" "0 \<le> b"
  shows "arrayFrom a s @ arrayFrom b (s + a) = arrayFrom (a + b) s"
proof -
  have n: "nat (a + b) = nat a + nat b" using assms by (simp add: nat_add_distrib)
  have "[0 ..< nat a + nat b] = [0 ..< nat a] @ [nat a ..< nat a + nat b]"
    using upt_add_eq_append [of 0 "nat a" "nat b"] by simp
  also have "[nat a ..< nat a + nat b] = map (\<lambda>k. k + nat a) [0 ..< nat b]"
    using map_add_upt [of "nat a" "nat b"] by (simp add: add.commute)
  finally have "map (\<lambda>k. s + int k) [0 ..< nat (a + b)]
        = map (\<lambda>k. s + int k) [0 ..< nat a] @ map (\<lambda>k. s + a + int k) [0 ..< nat b]"
    using assms by (simp add: n o_def add.assoc)
  then show ?thesis by (simp add: arrayFrom_def)
qed

lemma length_arrayFrom: "length (arrayFrom len s) = nat len"
  by (simp add: arrayFrom_def)

lemma length_evenSplitLoop: "length (evenSplitLoop k base r cur) = k"
  by (induction k arbitrary: r cur) (simp_all add: Let_def)

lemma concat_evenSplitLoop:
  "0 \<le> base \<Longrightarrow> 0 \<le> r \<Longrightarrow>
   concat (evenSplitLoop k base r cur) = arrayFrom (int k * base + min r (int k)) cur"
proof (induction k arbitrary: r cur)
  case 0
  then show ?case by (simp add: arrayFrom_def)
next
  case (Suc k)
  show ?case
  proof (cases "r > 0")
    case True
    have "concat (evenSplitLoop (Suc k) base r cur)
          = arrayFrom (base + 1) cur @ arrayFrom (int k * base + min (r - 1) (int k)) (cur + (base + 1))"
      using True Suc.IH[of "r - 1" "cur + (base + 1)"] Suc.prems by (simp add: Let_def)
    also have "\<dots> = arrayFrom ((base + 1) + (int k * base + min (r - 1) (int k))) cur"
      using Suc.prems True by (intro arrayFrom_append) auto
    also have "(base + 1) + (int k * base + min (r - 1) (int k))
               = int (Suc k) * base + min r (int (Suc k))"
      using True by (simp add: algebra_simps min_def)
    finally show ?thesis .
  next
    case False
    with Suc.prems have r0: "r = 0" by simp
    have "concat (evenSplitLoop (Suc k) base r cur)
          = arrayFrom base cur @ arrayFrom (int k * base + min 0 (int k)) (cur + base)"
      using r0 Suc.IH[of 0 "cur + base"] Suc.prems by (simp add: Let_def)
    also have "\<dots> = arrayFrom (base + (int k * base + min 0 (int k))) cur"
      using Suc.prems by (intro arrayFrom_append) auto
    also have "base + (int k * base + min 0 (int k)) = int (Suc k) * base + min r (int (Suc k))"
      using r0 by (simp add: algebra_simps)
    finally show ?thesis .
  qed
qed

lemma nth_evenSplitLoop:
  "0 \<le> r \<Longrightarrow> i < k \<Longrightarrow>
   length (evenSplitLoop k base r cur ! i) = nat (base + (if int i < r then 1 else 0))"
proof (induction k arbitrary: i r cur)
  case 0
  then show ?case by simp
next
  case (Suc k)
  show ?case
  proof (cases i)
    case 0
    then show ?thesis by (simp add: Let_def length_arrayFrom)
  next
    case (Suc j)
    with Suc.prems have j: "j < k" by simp
    show ?thesis
    proof (cases "r > 0")
      case True
      then show ?thesis
        using Suc.IH[of "r - 1" j "cur + (base + 1)"] j \<open>i = Suc j\<close> by (simp add: Let_def)
    next
      case False
      with Suc.prems have "r = 0" by simp
      then show ?thesis
        using Suc.IH[of 0 j "cur + base"] j \<open>i = Suc j\<close> by (simp add: Let_def)
    qed
  qed
qed

lemma evenSplit_pos:
  assumes "0 < pageCount" "0 < n"
  shows "evenSplit pageCount n
         = evenSplitLoop (nat n) (pageCount div n) (pageCount - pageCount div n * n) 0"
  using assms by (simp add: evenSplit_def Let_def)

lemma evenSplit_zero:
  assumes "0 < n"
  shows "evenSplit 0 n = replicate (nat n) []"
  using assms by (simp add: evenSplit_def)

lemma evenSplit_sizes:
  assumes pc: "0 \<le> pageCount" and n: "0 < n" and i: "i < nat n"
  shows "int (length (evenSplit pageCount n ! i))
         = pageCount div n + (if int i < pageCount - n * (pageCount div n) then 1 else 0)"
proof (cases "pageCount = 0")
  case True
  then show ?thesis using n i by (simp add: evenSplit_zero)
next
  case False
  with pc have p: "0 < pageCount" by simp
  have r: "0 \<le> pageCount - pageCount div n * n"
    using n by (simp add: minus_div_mult_eq_mod)
  have b: "0 \<le> pageCount div n" using p n by (simp add: pos_imp_zdiv_nonneg_iff)
  show ?thesis
    unfolding evenSplit_pos[OF p n]
    using nth_evenSplitLoop[OF r i, of "pageCount div n" 0] b
    by (simp add: mult.commute)
qed

lemma evenSplit_concat:
  assumes pc: "0 \<le> pageCount" and n: "0 < n"
  shows "concat (evenSplit pageCount n) = map int [0 ..< nat pageCount]"
proof (cases "pageCount = 0")
  case True
  then show ?thesis using n by (simp add: evenSplit_zero)
next
  case False
  with pc have p: "0 < pageCount" by simp
  have r: "0 \<le> pageCount - pageCount div n * n"
    using n by (simp add: minus_div_mult_eq_mod)
  have rn: "pageCount - pageCount div n * n < n"
    using n by (simp add: minus_div_mult_eq_mod)
  have b: "0 \<le> pageCount div n" using p n by (simp add: pos_imp_zdiv_nonneg_iff)
  have "int (nat n) * (pageCount div n) + min (pageCount - pageCount div n * n) (int (nat n))
        = pageCount"
    using n rn by (simp add: min_def mult.commute)
  then have "concat (evenSplit pageCount n) = arrayFrom pageCount 0"
    unfolding evenSplit_pos[OF p n] using concat_evenSplitLoop[OF b r, of "nat n" 0] by simp
  then show ?thesis by (simp add: arrayFrom_def)
qed

text \<open>
  Claim C7. For a page count \<open>pageCount \<ge> 0\<close> and \<open>n > 0\<close> students, \<^verbatim>\<open>evenSplit\<close>
  returns \<open>n\<close> lists; their concatenation in student order is \<open>[0, 1, ..., pageCount - 1]\<close>,
  so they have no gap and no overlap and their lengths add up to \<open>pageCount\<close>; student
  \<open>i\<close> gets \<open>floor(pageCount / n)\<close> pages and one more when
  \<open>i < pageCount - n * floor(pageCount / n)\<close>; two lengths differ by at most one.
\<close>

theorem even_split_fair:
  assumes "0 \<le> pageCount" and "0 < n"
  shows "length (evenSplit pageCount n) = nat n
    \<and> concat (evenSplit pageCount n) = map int [0 ..< nat pageCount]
    \<and> sum_list (map length (evenSplit pageCount n)) = nat pageCount
    \<and> (\<forall>i < nat n. int (length (evenSplit pageCount n ! i))
          = pageCount div n + (if int i < pageCount - n * (pageCount div n) then 1 else 0))
    \<and> (\<forall>i < nat n. \<forall>j < nat n.
          length (evenSplit pageCount n ! i) \<le> length (evenSplit pageCount n ! j) + 1)"
proof -
  have len: "length (evenSplit pageCount n) = nat n"
    using assms by (cases "pageCount = 0") (simp_all add: evenSplit_zero evenSplit_pos length_evenSplitLoop)
  have cc: "concat (evenSplit pageCount n) = map int [0 ..< nat pageCount]"
    using assms by (rule evenSplit_concat)
  have "length (concat (evenSplit pageCount n)) = nat pageCount"
    unfolding cc by simp
  then have tot: "sum_list (map length (evenSplit pageCount n)) = nat pageCount"
    by (simp add: length_concat)
  have sz: "\<forall>i < nat n. int (length (evenSplit pageCount n ! i))
          = pageCount div n + (if int i < pageCount - n * (pageCount div n) then 1 else 0)"
    using evenSplit_sizes[OF assms] by blast
  have df: "\<forall>i < nat n. \<forall>j < nat n.
          length (evenSplit pageCount n ! i) \<le> length (evenSplit pageCount n ! j) + 1"
  proof (intro allI impI)
    fix i j assume "i < nat n" "j < nat n"
    with sz have "int (length (evenSplit pageCount n ! i)) \<le> pageCount div n + 1"
      and "pageCount div n \<le> int (length (evenSplit pageCount n ! j))"
      by (auto split: if_splits)
    then show "length (evenSplit pageCount n ! i) \<le> length (evenSplit pageCount n ! j) + 1"
      by linarith
  qed
  from len cc tot sz df show ?thesis by blast
qed

theorem even_split_fair_witness:
  "(0::int) \<le> 7 \<and> (0::int) < 3
   \<and> evenSplit 7 3 = [ [0, 1, 2], [3, 4], [5, 6]]
   \<and> map length (evenSplit 7 3) = [3, 2, 2]
   \<and> concat (evenSplit 7 3) = map int [0 ..< nat 7]"
proof -
  have e: "evenSplit 7 3 = [ [0, 1, 2], [3, 4], [5, 6]]" by code_simp
  have c: "concat (evenSplit 7 3) = map int [0 ..< nat 7]"
    using even_split_fair [of 7 3] by simp
  from e c show ?thesis by simp
qed

section \<open>The page mapping: proofs\<close>

lemma insertBy_insort: "insertBy (\<lambda>a b. a - b) (x::int) ys = insort x ys"
  by (induction ys) simp_all

lemma sortBy_sort: "sortBy (\<lambda>a b. a - b) (xs::int list) = sort xs"
proof -
  have "insertBy (\<lambda>a b. a - b) = (insort :: int \<Rightarrow> int list \<Rightarrow> int list)"
    by (intro ext) (rule insertBy_insort)
  then show ?thesis by (simp add: sortBy_def sort_key_def)
qed

lemma set_fold_setOf:
  "set (fold (\<lambda>x acc. if x \<in> set acc then acc else acc @ [x]) xs acc) = set acc \<union> set xs"
  by (induction xs arbitrary: acc) auto

lemma distinct_fold_setOf:
  "distinct acc \<Longrightarrow> distinct (fold (\<lambda>x acc. if x \<in> set acc then acc else acc @ [x]) xs acc)"
  by (induction xs arbitrary: acc) auto

lemma set_setOf: "set (setOf xs) = set xs"
  by (simp add: setOf_def set_fold_setOf)

lemma distinct_setOf: "distinct (setOf xs)"
  by (simp add: setOf_def distinct_fold_setOf)

lemma normalizeIndices_inv:
  "distinct (normalizeIndices ix tp) \<and> sorted (normalizeIndices ix tp)
   \<and> (\<forall>p \<in> set (normalizeIndices ix tp). 0 \<le> p \<and> p < tp)"
  by (auto simp: normalizeIndices_def Let_def sortBy_sort set_setOf distinct_setOf)

lemma toInt32_le: "- 2147483648 \<le> pc \<Longrightarrow> max 0 (toInt32 pc) \<le> max 0 pc"
proof -
  assume a: "- 2147483648 \<le> pc"
  show ?thesis
  proof (cases "0 \<le> pc")
    case True
    then have "pc mod 4294967296 \<le> pc" by (rule zmod_le_nonneg_dividend)
    then show ?thesis using True by (auto simp: toInt32_def Let_def)
  next
    case False
    then have "pc mod 4294967296 = pc + 4294967296"
      using a mod_pos_pos_trivial [of "pc + 4294967296" 4294967296] by simp
    then show ?thesis using False a by (simp add: toInt32_def Let_def)
  qed
qed

lemma map_filter_JInt: "List.map_filter asInteger (map JInt xs) = xs"
  by (induction xs) (simp_all add: asInteger_def)

lemma pagesOf_withPages: "pagesOf (withPages x xs) = xs"
  by (simp add: pagesOf_def withPages_def nullish_def map_filter_JInt)

lemma page_indices_withPages: "page_indices (withPages x xs) = Some (map JInt xs)"
  by (simp add: withPages_def)

lemma spillover_shape:
  "s \<in> set (spillover rp tp cur sts split) \<Longrightarrow> \<exists>x ix. s = withPages x (normalizeIndices ix tp)"
proof (induction sts arbitrary: cur split)
  case Nil
  then show ?case by simp
next
  case (Cons a sts)
  then show ?case by (auto simp: Let_def)
qed

lemma zip_shape:
  "s \<in> set (map (\<lambda>(s, blk). withPages s (normalizeIndices (map JInt blk) tp)) (zip xs ys))
   \<Longrightarrow> \<exists>x ix. s = withPages x (normalizeIndices ix tp)"
  by auto

lemma mapPagesToStudents_shape:
  assumes "s \<in> set (mapPagesToStudents pc sts pt)"
  shows "\<exists>x ix. s = withPages x (normalizeIndices ix (max 0 (toInt32 pc)))"
proof -
  let ?tp = "max 0 (toInt32 pc)"
  let ?n = "length sts"
  let ?ib = "inferByPageTexts pt ?n"
  let ?out = "\<lambda>k. map (\<lambda>(s, blk). withPages s (normalizeIndices (map JInt blk) ?tp))
                       (zip (take k sts) (take k ?ib))"
  consider (empty) "?n = 0"
    | (provided) "?n \<noteq> 0" "allProvided sts"
    | (exact) "?n \<noteq> 0" "\<not> allProvided sts" "length ?ib \<ge> 1" "length ?ib = ?n"
    | (partial) "?n \<noteq> 0" "\<not> allProvided sts" "length ?ib \<ge> 1" "length ?ib \<noteq> ?n"
    | (split) "?n \<noteq> 0" "\<not> allProvided sts" "\<not> length ?ib \<ge> 1"
    by blast
  then show ?thesis
  proof cases
    case empty
    with assms show ?thesis by (simp add: mapPagesToStudents_def)
  next
    case provided
    with assms show ?thesis by (auto simp: mapPagesToStudents_def Let_def)
  next
    case exact
    with assms have "s \<in> set (map (\<lambda>(s, blk). withPages s (normalizeIndices (map JInt blk) ?tp))
                                 (zip sts ?ib))"
      by (simp add: mapPagesToStudents_def Let_def)
    then show ?thesis by (rule zip_shape)
  next
    case partial
    with assms have "s \<in> set (?out (min ?n (length ?ib)))
       \<or> (\<exists>rp cur rest sp. s \<in> set (spillover rp ?tp cur rest sp))"
      by (auto simp: mapPagesToStudents_def Let_def split: if_splits)
    then show ?thesis using zip_shape spillover_shape by blast
  next
    case split
    with assms show ?thesis by (auto simp: mapPagesToStudents_def Let_def)
  qed
qed

text \<open>
  Claim C8. For a page count (any integer not below \<open>-2^31\<close>, where the conversion
  \<^verbatim>\<open>pageCount | 0\<close> does not wrap to a positive number), any students and any page texts, every
  record that \<^verbatim>\<open>mapPagesToStudents\<close> returns, in each of its modes (provided indices,
  blocks inferred from the headers, even split), has a \<^verbatim>\<open>page_indices\<close> list of
  integers that is free of duplicates, sorted ascending and within \<open>[0, pageCount)\<close>. The
  list may be empty, and the lists together need not cover every page.
\<close>

theorem page_list_invariant:
  assumes "- 2147483648 \<le> pageCount"
    and "s \<in> set (mapPagesToStudents pageCount students page_texts)"
  shows "page_indices s = Some (map JInt (pagesOf s))
    \<and> distinct (pagesOf s) \<and> sorted (pagesOf s)
    \<and> (\<forall>p \<in> set (pagesOf s). 0 \<le> p \<and> p < pageCount)"
proof -
  from assms(2) obtain x ix where s: "s = withPages x (normalizeIndices ix (max 0 (toInt32 pageCount)))"
    using mapPagesToStudents_shape by blast
  have p: "pagesOf s = normalizeIndices ix (max 0 (toInt32 pageCount))"
    unfolding s by (rule pagesOf_withPages)
  have "page_indices s = Some (map JInt (pagesOf s))"
    unfolding p unfolding s by (rule page_indices_withPages)
  moreover have "distinct (pagesOf s)" "sorted (pagesOf s)"
    unfolding p using normalizeIndices_inv by blast+
  moreover have "\<forall>p \<in> set (pagesOf s). 0 \<le> p \<and> p < pageCount"
    unfolding p using normalizeIndices_inv[of ix "max 0 (toInt32 pageCount)"] toInt32_le[OF assms(1)]
    by fastforce
  ultimately show ?thesis by blast
qed

theorem page_list_invariant_witness:
  "- 2147483648 \<le> (7::int)
   \<and> mapPagesToStudents 7 [example_provided] None = [withPages example_provided [2, 5]]
   \<and> pagesOf (withPages example_provided [2, 5]) = [2, 5]
   \<and> map pagesOf (mapPagesToStudents 5 [emptyStudent, emptyStudent, emptyStudent]
        (Some [''cover'', example_header_page, ''a'', ''b'', ''c''])) = [ [1, 2, 3, 4], [0], []]
   \<and> map pagesOf (mapPagesToStudents 7 [emptyStudent, emptyStudent, emptyStudent] None)
        = [ [0, 1, 2], [3, 4], [5, 6]]"
proof -
  have a: "mapPagesToStudents 7 [example_provided] None = [withPages example_provided [2, 5]]"
    by code_simp
  have b: "map pagesOf (mapPagesToStudents 5 [emptyStudent, emptyStudent, emptyStudent]
        (Some [''cover'', example_header_page, ''a'', ''b'', ''c''])) = [ [1, 2, 3, 4], [0], []]"
    by code_simp
  have c: "map pagesOf (mapPagesToStudents 7 [emptyStudent, emptyStudent, emptyStudent] None)
        = [ [0, 1, 2], [3, 4], [5, 6]]"
    by code_simp
  have m: "withPages example_provided [2, 5] \<in> set (mapPagesToStudents 7 [example_provided] None)"
    unfolding a by simp
  have d: "pagesOf (withPages example_provided [2, 5]) = [2, 5]"
    by code_simp
  have "distinct (pagesOf (withPages example_provided [2, 5]))"
    using page_list_invariant [OF _ m] by simp
  with a b c d show ?thesis by simp
qed

section \<open>The composite-pack selection: proofs\<close>

lemma pagesPerStudentOf_ge: "1 \<le> pagesPerStudentOf q"
  by (simp add: pagesPerStudentOf_def)

lemma pagesPerStudentOf_Some: "1 \<le> pps \<Longrightarrow> no_of_pages q = Some pps \<Longrightarrow> pagesPerStudentOf q = pps"
  by (auto simp: pagesPerStudentOf_def)

lemma buildMapped_pages:
  "map pageIndex (buildMapped pageCount pps graded)
   = map (\<lambda>i. int i * pps) [0 ..< nat (min (int (length graded)) (pageCount div pps))]"
  by (simp add: buildMapped_def Let_def o_def)

lemma buildMapped_students:
  "map student (buildMapped pageCount pps graded)
   = take (nat (min (int (length graded)) (pageCount div pps))) graded"
proof -
  let ?k = "nat (min (int (length graded)) (pageCount div pps))"
  have k: "?k \<le> length graded" by auto
  have "map student (buildMapped pageCount pps graded)
        = map (\<lambda>i. nullish (at graded (int i)) emptyStudent) [0 ..< ?k]"
    by (simp add: buildMapped_def Let_def o_def)
  also have "\<dots> = map (\<lambda>i. graded ! i) [0 ..< ?k]"
    using k by (intro map_cong) (auto simp: at_def nullish_def)
  also have "\<dots> = map (\<lambda>i. graded ! i) (take ?k [0 ..< length graded])"
    using k by simp
  also have "\<dots> = take ?k (map (\<lambda>i. graded ! i) [0 ..< length graded])"
    by (simp only: take_map)
  also have "\<dots> = take ?k graded"
    by (simp only: map_nth)
  finally show ?thesis .
qed

text \<open>The comparator sort is the stable insertion sort by the negated score.\<close>

lemma insertBy_byScoreDesc: "insertBy byScoreDesc x ys = insort_key (\<lambda>m. - scoreOf m) x ys"
  by (induction ys) (simp_all add: byScoreDesc_def)

lemma sortBy_byScoreDesc: "sortBy byScoreDesc pool = sort_key (\<lambda>m. - scoreOf m) pool"
proof -
  have "insertBy byScoreDesc = insort_key (\<lambda>m. - scoreOf m)"
    by (intro ext) (rule insertBy_byScoreDesc)
  then show ?thesis by (simp add: sortBy_def sort_key_def)
qed

lemma ranked_descending: "sorted_wrt (\<lambda>a b. scoreOf a \<ge> scoreOf b) (sortBy byScoreDesc pool)"
proof -
  have "sorted (map (\<lambda>m. - scoreOf m) (sortBy byScoreDesc pool))"
    unfolding sortBy_byScoreDesc by (rule sorted_sort_key)
  then show ?thesis by (simp add: sorted_map sorted_wrt_iff_nth_less)
qed

lemma ranked_stable:
  "filter (\<lambda>m. scoreOf m = k) (sortBy byScoreDesc pool) = filter (\<lambda>m. scoreOf m = k) pool"
proof -
  have "filter (\<lambda>m. - scoreOf m = - k) (sort_key (\<lambda>m. - scoreOf m) pool)
        = filter (\<lambda>m. - scoreOf m = - k) pool"
    by (rule sort_key_stable)
  then show ?thesis by (simp add: sortBy_byScoreDesc)
qed

lemma ranked_same_elements:
  "set (sortBy byScoreDesc pool) = set pool \<and> length (sortBy byScoreDesc pool) = length pool"
  by (simp add: sortBy_byScoreDesc)

lemma pageAt_in_range:
  "0 \<le> i \<Longrightarrow> i < int (length xs) \<Longrightarrow> nullish (pageAt xs i) fb = pageIndex (xs ! nat i)"
  by (simp add: pageAt_def at_def nullish_def)

lemma no_solution_selection:
  assumes sel: "selectFromFormattedAndBuild (Some q) (Some pageCount) = Inr sel"
    and flag: "read_first_paper_is_solution q = Some False"
    and ne: "mapped sel \<noteq> []"
  shows "solutionIdx sel = None
    \<and> bestIdx sel = pageIndex (hd (sortBy byScoreDesc (mapped sel)))
    \<and> avgIdx sel = pageIndex (sortBy byScoreDesc (mapped sel)
                                 ! (length (sortBy byScoreDesc (mapped sel)) div 2))
    \<and> lowIdx sel = pageIndex (last (sortBy byScoreDesc (mapped sel)))"
proof -
  let ?mp = "buildMapped pageCount (pagesPerStudentOf q) (nullish (graded_json q) [])"
  let ?r = "sortBy byScoreDesc ?mp"
  let ?fb = "nullish (pageAt ?mp 0) (nullish (pageAt ?mp 0) 0)"
  from sel flag have s: "sel = \<lparr>mapped = ?mp, solutionIdx = None,
        bestIdx = nullish (pageAt ?r 0) ?fb,
        avgIdx = nullish (pageAt ?r (int (length ?r) div 2)) ?fb,
        lowIdx = nullish (pageAt ?r (int (length ?r) - 1)) ?fb\<rparr>"
    by (auto simp: selectFromFormattedAndBuild_def Let_def readFirstPaperIsSolution_def
          split: option.splits if_splits)
  then have m: "mapped sel = ?mp" by simp
  with ne have l: "0 < length ?r" using ranked_same_elements [of ?mp] by simp
  then have rne: "?r \<noteq> []" by auto
  have li: "0 < int (length ?r)" using l by simp
  have b: "nullish (pageAt ?r 0) ?fb = pageIndex (hd ?r)"
    using pageAt_in_range [OF order_refl li, of ?fb] by (simp add: hd_conv_nth rne)
  have h0: "0 \<le> int (length ?r) div 2" by simp
  have h1: "int (length ?r) div 2 < int (length ?r)" using li by linarith
  have d2: "nat (int (length ?r) div 2) = length ?r div 2" by (simp add: nat_div_distrib)
  have a: "nullish (pageAt ?r (int (length ?r) div 2)) ?fb = pageIndex (?r ! (length ?r div 2))"
    using pageAt_in_range [OF h0 h1, of ?fb] by (simp only: d2)
  have g0: "0 \<le> int (length ?r) - 1" using li by linarith
  have g1: "int (length ?r) - 1 < int (length ?r)" by simp
  have l1: "nat (int (length ?r) - 1) = length ?r - 1" by simp
  have lo: "nullish (pageAt ?r (int (length ?r) - 1)) ?fb = pageIndex (last ?r)"
    using pageAt_in_range [OF g0 g1, of ?fb] by (simp only: l1 last_conv_nth [OF rne])
  show ?thesis unfolding m
    using s b a lo by simp
qed

text \<open>
  Claim C5 (Scenario A). Three graded students in arrival order with the scores 40, 90 and
  10, one page per student, three pages, the solution flag false: the selection maps the
  pages 0, 1, 2, ranks the whole pool, and picks Best = page 1, Average = page 0 (the element
  at index \<open>floor(3 / 2)\<close> of the ranked order 90, 40, 10) and Low = page 2; no Solution role
  is emitted, the roles are Best, Avg, Low. The ranking of any pool is descending by total
  score, has the elements of the pool, and keeps the original order among equal scores.
  Whenever the solution flag is false and a student is mapped, no solution index is chosen,
  and Best, Average and Low are the first element, the element at index
  \<open>floor (poolSize / 2)\<close> and the last element of the ranking of all mapped students.
\<close>

theorem selection_scenario_A:
  assumes "total_score s0 = Some 40" and "total_score s1 = Some 90" and "total_score s2 = Some 10"
    and "original_pdf q = Some path" and "path \<noteq> []"
    and "no_of_pages q = Some 1" and "read_first_paper_is_solution q = Some False"
    and "graded_json q = Some [s0, s1, s2]"
  shows "selectFromFormattedAndBuild (Some q) (Some 3)
           = Inr \<lparr>mapped = [\<lparr>index = 0, pageIndex = 0, student = s0\<rparr>,
                            \<lparr>index = 1, pageIndex = 1, student = s1\<rparr>,
                            \<lparr>index = 2, pageIndex = 2, student = s2\<rparr>],
                  solutionIdx = None, bestIdx = 1, avgIdx = 0, lowIdx = 2\<rparr>
    \<and> roleOrder (Some q) (Some 3)
           = Inr [\<lparr>label = ''Best'', page = 1, role_student = s1\<rparr>,
                  \<lparr>label = ''Avg'', page = 0, role_student = s0\<rparr>,
                  \<lparr>label = ''Low'', page = 2, role_student = s2\<rparr>]
    \<and> (\<forall>pool. sorted_wrt (\<lambda>a b. scoreOf a \<ge> scoreOf b) (sortBy byScoreDesc pool)
              \<and> set (sortBy byScoreDesc pool) = set pool
              \<and> length (sortBy byScoreDesc pool) = length pool
              \<and> (\<forall>k. filter (\<lambda>m. scoreOf m = k) (sortBy byScoreDesc pool)
                        = filter (\<lambda>m. scoreOf m = k) pool))
    \<and> (\<forall>q' pageCount sel.
          selectFromFormattedAndBuild (Some q') (Some pageCount) = Inr sel
          \<and> read_first_paper_is_solution q' = Some False \<and> mapped sel \<noteq> []
          \<longrightarrow> solutionIdx sel = None
            \<and> bestIdx sel = pageIndex (hd (sortBy byScoreDesc (mapped sel)))
            \<and> avgIdx sel = pageIndex (sortBy byScoreDesc (mapped sel)
                                         ! (length (sortBy byScoreDesc (mapped sel)) div 2))
            \<and> lowIdx sel = pageIndex (last (sortBy byScoreDesc (mapped sel))))"
proof -
  let ?m0 = "\<lparr>index = 0, pageIndex = 0, student = s0\<rparr>"
  let ?m1 = "\<lparr>index = Suc 0, pageIndex = 1, student = s1\<rparr>"
  let ?m2 = "\<lparr>index = 2, pageIndex = 2, student = s2\<rparr>"
  have pps: "pagesPerStudentOf q = 1" using assms(6) by (simp add: pagesPerStudentOf_def)
  have up: "[0 ..< 3] = [0, 1, 2]" by (simp add: upt_rec)
  have mp: "buildMapped 3 1 [s0, s1, s2] = [?m0, ?m1, ?m2]"
    by (simp add: buildMapped_def Let_def up at_def nullish_def)
  have srt: "sortBy byScoreDesc [?m0, ?m1, ?m2] = [?m1, ?m0, ?m2]"
    using assms(1-3) by (simp add: sortBy_def byScoreDesc_def scoreOf_def nullish_def)
  have sel: "selectFromFormattedAndBuild (Some q) (Some 3)
           = Inr \<lparr>mapped = [?m0, ?m1, ?m2], solutionIdx = None, bestIdx = 1, avgIdx = 0, lowIdx = 2\<rparr>"
    using assms(4,5,7,8)
    by (simp add: selectFromFormattedAndBuild_def Let_def nullish_def pps mp srt
          readFirstPaperIsSolution_def pageAt_def at_def)
  have ro: "roleOrder (Some q) (Some 3)
           = Inr [\<lparr>label = ''Best'', page = 1, role_student = s1\<rparr>,
                  \<lparr>label = ''Avg'', page = 0, role_student = s0\<rparr>,
                  \<lparr>label = ''Low'', page = 2, role_student = s2\<rparr>]"
    by (simp add: roleOrder_def sel studentOfPage_def)
  have gen: "\<forall>q' pageCount sel.
          selectFromFormattedAndBuild (Some q') (Some pageCount) = Inr sel
          \<and> read_first_paper_is_solution q' = Some False \<and> mapped sel \<noteq> []
          \<longrightarrow> solutionIdx sel = None
            \<and> bestIdx sel = pageIndex (hd (sortBy byScoreDesc (mapped sel)))
            \<and> avgIdx sel = pageIndex (sortBy byScoreDesc (mapped sel)
                                         ! (length (sortBy byScoreDesc (mapped sel)) div 2))
            \<and> lowIdx sel = pageIndex (last (sortBy byScoreDesc (mapped sel)))"
    using no_solution_selection by blast
  have rk: "\<forall>pool. sorted_wrt (\<lambda>a b. scoreOf a \<ge> scoreOf b) (sortBy byScoreDesc pool)
              \<and> set (sortBy byScoreDesc pool) = set pool
              \<and> length (sortBy byScoreDesc pool) = length pool
              \<and> (\<forall>k. filter (\<lambda>m. scoreOf m = k) (sortBy byScoreDesc pool)
                        = filter (\<lambda>m. scoreOf m = k) pool)"
    using ranked_descending ranked_same_elements ranked_stable by simp
  have s1: "selectFromFormattedAndBuild (Some q) (Some 3)
           = Inr \<lparr>mapped = [\<lparr>index = 0, pageIndex = 0, student = s0\<rparr>,
                            \<lparr>index = 1, pageIndex = 1, student = s1\<rparr>,
                            \<lparr>index = 2, pageIndex = 2, student = s2\<rparr>],
                  solutionIdx = None, bestIdx = 1, avgIdx = 0, lowIdx = 2\<rparr>"
    using sel by simp
  from s1 ro rk gen show ?thesis by (intro conjI)
qed

theorem selection_scenario_A_witness:
  "total_score (example_score 40) = Some 40 \<and> total_score (example_score 90) = Some 90
   \<and> total_score (example_score 10) = Some 10
   \<and> roleOrder (Some (example_graded_quiz 1 False
                        [example_score 40, example_score 90, example_score 10])) (Some 3)
       = Inr [\<lparr>label = ''Best'', page = 1, role_student = example_score 90\<rparr>,
              \<lparr>label = ''Avg'', page = 0, role_student = example_score 40\<rparr>,
              \<lparr>label = ''Low'', page = 2, role_student = example_score 10\<rparr>]"
proof -
  let ?q = "example_graded_quiz 1 False [example_score 40, example_score 90, example_score 10]"
  have h: "total_score (example_score 40) = Some 40" "total_score (example_score 90) = Some 90"
    "total_score (example_score 10) = Some 10"
    by (simp_all add: example_score_def)
  have q: "original_pdf ?q = Some ''uploads/quiz1.pdf''" "''uploads/quiz1.pdf'' \<noteq> []"
    "no_of_pages ?q = Some 1" "read_first_paper_is_solution ?q = Some False"
    "graded_json ?q = Some [example_score 40, example_score 90, example_score 10]"
    by (simp_all add: example_graded_quiz_def example_quiz_def)
  from selection_scenario_A [OF h q] h show ?thesis by blast
qed

text \<open>
  Claim C6 (P2). For a page count \<open>pageCount \<ge> 0\<close>, a block size \<open>pagesPerStudent \<ge> 1\<close>
  and any graded results, the mapping of the composite-pack selection has the page indices
  \<open>[0, pagesPerStudent, 2 * pagesPerStudent, ...]\<close>, exactly
  \<open>min (length graded) (floor (pageCount / pagesPerStudent))\<close> of them, for the first
  students in order: the block of student \<open>i\<close> starts at page \<open>i * pagesPerStudent\<close>. It is
  the \<^verbatim>\<open>mapped\<close> list that \<^verbatim>\<open>selectFromFormattedAndBuild\<close> returns for a quiz with that
  block size.
\<close>

theorem primary_block_mapping:
  assumes "0 \<le> pageCount" and "1 \<le> pps"
  shows "map pageIndex (buildMapped pageCount pps graded)
           = map (\<lambda>i. int i * pps) [0 ..< min (length graded) (nat (pageCount div pps))]
    \<and> length (buildMapped pageCount pps graded) = min (length graded) (nat (pageCount div pps))
    \<and> map student (buildMapped pageCount pps graded)
           = take (min (length graded) (nat (pageCount div pps))) graded
    \<and> (\<forall>q path. original_pdf q = Some path \<and> path \<noteq> [] \<and> no_of_pages q = Some pps
                  \<and> graded_json q = Some graded
          \<longrightarrow> (\<exists>sel. selectFromFormattedAndBuild (Some q) (Some pageCount) = Inr sel
                     \<and> mapped sel = buildMapped pageCount pps graded))"
proof -
  have k: "nat (min (int (length graded)) (pageCount div pps))
           = min (length graded) (nat (pageCount div pps))"
    by arith
  have a: "map pageIndex (buildMapped pageCount pps graded)
           = map (\<lambda>i. int i * pps) [0 ..< min (length graded) (nat (pageCount div pps))]"
    using buildMapped_pages [of pageCount pps graded] by (simp only: k)
  have b: "length (buildMapped pageCount pps graded) = min (length graded) (nat (pageCount div pps))"
    using arg_cong [OF a, of length] by simp
  have c: "map student (buildMapped pageCount pps graded)
           = take (min (length graded) (nat (pageCount div pps))) graded"
    using buildMapped_students [of pageCount pps graded] by (simp only: k)
  have d: "\<exists>sel. selectFromFormattedAndBuild (Some q) (Some pageCount) = Inr sel
                     \<and> mapped sel = buildMapped pageCount pps graded"
    if "original_pdf q = Some path" "path \<noteq> []" "no_of_pages q = Some pps"
       "graded_json q = Some graded" for q path
    using that pagesPerStudentOf_Some [OF assms(2) that(3)]
    by (simp add: selectFromFormattedAndBuild_def Let_def nullish_def)
  from a b c d show ?thesis by blast
qed

theorem primary_block_mapping_witness:
  "(0::int) \<le> 10 \<and> (1::int) \<le> 2
   \<and> map pageIndex (buildMapped 10 2 (map example_score [40, 90, 10, 55, 70])) = [0, 2, 4, 6, 8]
   \<and> map pageIndex (buildMapped 5 2 (map example_score [40, 90, 10, 55, 70])) = [0, 2]
   \<and> length (buildMapped 10 2 (map example_score [40, 90, 10, 55, 70]))
       = min (length (map example_score [40, 90, 10, 55, 70])) (nat (10 div 2))"
proof -
  have a: "map pageIndex (buildMapped 10 2 (map example_score [40, 90, 10, 55, 70])) = [0, 2, 4, 6, 8]"
    by code_simp
  have b: "map pageIndex (buildMapped 5 2 (map example_score [40, 90, 10, 55, 70])) = [0, 2]"
    by code_simp
  have c: "length (buildMapped 10 2 (map example_score [40, 90, 10, 55, 70]))
       = min (length (map example_score [40, 90, 10, 55, 70])) (nat (10 div 2))"
    using primary_block_mapping [of 10 2 "map example_score [40, 90, 10, 55, 70]"] by simp
  from a b c show ?thesis by simp
qed

section \<open>Header-based inference: proofs\<close>

lemma not_allProvided:
  "page_indices s1 = None \<Longrightarrow> \<not> allProvided (s1 # rest)"
  by (simp add: allProvided_def)

text \<open>
  Claim C1 (Scenario C), as the code has it. Two page texts, the first with
  \<^verbatim>\<open>name:\<close> and \<^verbatim>\<open>roll:\<close> and the second with neither, two students without
  \<^verbatim>\<open>page_indices\<close>, a two-page document: only page 0 is a block start; the one inferred
  block runs to the end of the document and has both pages, so student 1 gets the pages
  \<open>[0, 1]\<close>, and student 2, for whom no uncovered page is left, gets the empty list.
\<close>

theorem header_inference_scenario_C:
  assumes "isBlockStart t0" and "\<not> isBlockStart t1"
    and "page_indices s1 = None" and "page_indices s2 = None"
  shows "blockStarts [t0, t1] = [0]
    \<and> inferByPageTexts (Some [t0, t1]) 2 = [ [0, 1]]
    \<and> mapPagesToStudents 2 [s1, s2] (Some [t0, t1]) = [withPages s1 [0, 1], withPages s2 []]"
proof -
  have up: "[0 ..< 2] = [0, Suc 0]" by (simp add: upt_rec)
  have bs: "blockStarts [t0, t1] = [0]"
    using assms(1,2) by (simp add: blockStarts_def up)
  have af: "arrayFrom 2 0 = [0, 1]" by (simp add: arrayFrom_def up)
  have ib: "inferByPageTexts (Some [t0, t1]) 2 = [ [0, 1]]"
    by (simp add: inferByPageTexts_def bs af)
  have ib': "inferByPageTexts (Some [t0, t1]) (Suc (Suc 0)) = [ [0, 1]]"
    using ib by (simp add: numeral_2_eq_2)
  have t32: "max 0 (toInt32 2) = 2" by (simp add: toInt32_def)
  have n1: "normalizeIndices [JInt 0, JInt 1] 2 = [0, 1]"
    by (simp add: normalizeIndices_def asInteger_def setOf_def sortBy_def)
  have n0: "normalizeIndices [] 2 = []"
    by (simp add: normalizeIndices_def setOf_def sortBy_def)
  have es: "evenSplit 0 1 = [ []]" by (simp add: evenSplit_def)
  have "mapPagesToStudents 2 [s1, s2] (Some [t0, t1]) = [withPages s1 [0, 1], withPages s2 []]"
    using not_allProvided [OF assms(3), of "[s2]"]
    by (simp add: mapPagesToStudents_def Let_def ib' t32 af n1 n0 es)
  with bs ib show ?thesis by simp
qed

theorem header_inference_scenario_C_witness:
  "isBlockStart example_header_page \<and> \<not> isBlockStart ''Answer 1''
   \<and> page_indices emptyStudent = None
   \<and> map pagesOf (mapPagesToStudents 2 [emptyStudent, emptyStudent]
                     (Some [example_header_page, ''Answer 1''])) = [ [0, 1], []]"
proof -
  have h: "isBlockStart example_header_page" "\<not> isBlockStart ''Answer 1''"
    by code_simp+
  have p: "page_indices emptyStudent = None" by (simp add: emptyStudent_def)
  have "mapPagesToStudents 2 [emptyStudent, emptyStudent] (Some [example_header_page, ''Answer 1''])
        = [withPages emptyStudent [0, 1], withPages emptyStudent []]"
    using header_inference_scenario_C [OF h p p] by simp
  then have "map pagesOf (mapPagesToStudents 2 [emptyStudent, emptyStudent]
                     (Some [example_header_page, ''Answer 1''])) = [ [0, 1], []]"
    by (simp add: pagesOf_withPages)
  with h p show ?thesis by simp
qed

text \<open>
  Claim C1 as the specification states it (student 1 gets \<open>[0]\<close> and student 2 gets
  \<open>[1]\<close>) fails on the header page \<^verbatim>\<open>"Name: Jane\nRoll: 12\n----"\<close> followed by a page
  without a header.
\<close>

theorem header_inference_spillover_counterexample:
  "isBlockStart example_header_page \<and> \<not> isBlockStart ''Answer 1''
   \<and> page_indices emptyStudent = None
   \<and> map pagesOf (mapPagesToStudents 2 [emptyStudent, emptyStudent]
                     (Some [example_header_page, ''Answer 1''])) \<noteq> [ [0], [1]]"
  by code_simp

section \<open>The sentinel names: proofs\<close>

lemma startsWith_append: "startsWith (p @ rest) p"
  by (induction p) simp_all

lemma toLowerCase_append: "toLowerCase (a @ b) = toLowerCase a @ toLowerCase b"
  by (simp add: toLowerCase_def)

lemma isSentinelName_solution: "isSentinelName (Some (''solution_paper_'' @ rest))"
proof -
  have "toLowerCase ''solution_paper_'' = ''solution_paper_''" by code_simp
  then have "startsWith (toLowerCase (''solution_paper_'' @ rest)) ''solution_paper_''"
    using startsWith_append [of "''solution_paper_''" "toLowerCase rest"]
    by (simp only: toLowerCase_append)
  then show ?thesis by (simp add: isSentinelName_def nullish_def Let_def)
qed

lemma isSentinelName_unknown: "isSentinelName (Some (''unknown_'' @ rest))"
proof -
  have "toLowerCase ''unknown_'' = ''unknown_''" by code_simp
  then have "startsWith (toLowerCase (''unknown_'' @ rest)) ''unknown_''"
    using startsWith_append [of "''unknown_''" "toLowerCase rest"]
    by (simp only: toLowerCase_append)
  then show ?thesis by (simp add: isSentinelName_def nullish_def Let_def)
qed

lemma stripEdgeUnderscores_prefixed:
  assumes p: "p \<noteq> []" "\<not> isUnderscore (hd p)" and s: "\<exists>c \<in> set s. \<not> isUnderscore c"
  shows "stripEdgeUnderscores (p @ s) = p @ rev (dropWhile isUnderscore (rev s))"
proof -
  have a: "dropWhile isUnderscore (p @ s) = p @ s"
    using p by (cases p) auto
  from s obtain c where "c \<in> set (rev s)" "\<not> isUnderscore c" by auto
  then have "dropWhile isUnderscore (rev s @ rev p) = dropWhile isUnderscore (rev s) @ rev p"
    by (rule dropWhile_append1)
  then show ?thesis by (simp add: stripEdgeUnderscores_def a)
qed

lemma dropWhile_rev_last:
  "s \<noteq> [] \<Longrightarrow> \<not> P (last s) \<Longrightarrow> rev (dropWhile P (rev s)) = s"
  by (cases s rule: rev_cases) auto

lemma list_all_slugify: "list_all isSlugChar (slugify s)"
  by (simp add: slugify_def list_all_iff)

text \<open>
  Claim C2, as the code has it. The header-injection step builds the two sentinel names
  from \<^verbatim>\<open>solution_paper_\<close> (or \<^verbatim>\<open>unknown_\<close>), the slug of the title and, when the slug of
  the section is not empty, an underscore and the slug of the section, and then removes the
  trailing underscores. A slug has only characters of \<^verbatim>\<open>[a-z0-9_-]\<close>. Whenever the slug
  part has a character other than an underscore, the names keep their prefix, are exactly
  \<^verbatim>\<open>solution_paper_<slug(title)>[_<slug(section)>]\<close> and
  \<^verbatim>\<open>unknown_<slug(title)>[_<slug(section)>]\<close> when the slug part does not end in an underscore,
  and are recognised by the prefix match of \<^verbatim>\<open>pickSolutionIndex\<close>.
\<close>

theorem sentinel_protocol:
  assumes "\<exists>c \<in> set (slugSuffix ctx). \<not> isUnderscore c"
  shows "solutionName ctx
           = ''solution_paper_'' @ rev (dropWhile isUnderscore (rev (slugSuffix ctx)))
    \<and> unknownName ctx = ''unknown_'' @ rev (dropWhile isUnderscore (rev (slugSuffix ctx)))
    \<and> (\<not> isUnderscore (last (slugSuffix ctx))
         \<longrightarrow> solutionName ctx = ''solution_paper_'' @ slugSuffix ctx
             \<and> unknownName ctx = ''unknown_'' @ slugSuffix ctx)
    \<and> isSentinelName (Some (solutionName ctx))
    \<and> isSentinelName (Some (unknownName ctx))
    \<and> slugSuffix ctx = slugify (orEmpty (quizTitle ctx))
         @ (if slugify (orEmpty (sectionName ctx)) \<noteq> []
            then ''_'' @ slugify (orEmpty (sectionName ctx)) else [])
    \<and> list_all isSlugChar (slugify (orEmpty (quizTitle ctx)))
    \<and> list_all isSlugChar (slugify (orEmpty (sectionName ctx)))"
proof -
  have hs: "''solution_paper_'' \<noteq> []" "\<not> isUnderscore (hd ''solution_paper_'')"
    and hu: "''unknown_'' \<noteq> []" "\<not> isUnderscore (hd ''unknown_'')"
    by (simp_all add: isUnderscore_def code_def)
  have a: "solutionName ctx
           = ''solution_paper_'' @ rev (dropWhile isUnderscore (rev (slugSuffix ctx)))"
    unfolding solutionName_def by (rule stripEdgeUnderscores_prefixed [OF hs assms])
  have b: "unknownName ctx = ''unknown_'' @ rev (dropWhile isUnderscore (rev (slugSuffix ctx)))"
    unfolding unknownName_def by (rule stripEdgeUnderscores_prefixed [OF hu assms])
  from assms have ne: "slugSuffix ctx \<noteq> []" by auto
  have c: "\<not> isUnderscore (last (slugSuffix ctx))
         \<longrightarrow> solutionName ctx = ''solution_paper_'' @ slugSuffix ctx
             \<and> unknownName ctx = ''unknown_'' @ slugSuffix ctx"
    using a b dropWhile_rev_last [OF ne, of isUnderscore] by simp
  have d: "isSentinelName (Some (solutionName ctx))"
    unfolding a by (rule isSentinelName_solution)
  have e: "isSentinelName (Some (unknownName ctx))"
    unfolding b by (rule isSentinelName_unknown)
  have f: "slugSuffix ctx = slugify (orEmpty (quizTitle ctx))
         @ (if slugify (orEmpty (sectionName ctx)) \<noteq> []
            then ''_'' @ slugify (orEmpty (sectionName ctx)) else [])"
    by (simp add: slugSuffix_def titleSlug_def sectionSlug_def)
  from a b c d e f list_all_slugify show ?thesis by blast
qed

theorem sentinel_protocol_witness:
  "slugSuffix (populate_ctx example_quiz) = ''quiz_1_section_a''
   \<and> CHR ''q'' \<in> set (slugSuffix (populate_ctx example_quiz)) \<and> \<not> isUnderscore CHR ''q''
   \<and> solutionName (populate_ctx example_quiz) = ''solution_paper_quiz_1_section_a''
   \<and> unknownName (populate_ctx example_quiz) = ''unknown_quiz_1_section_a''
   \<and> isSentinelName (Some (solutionName (populate_ctx example_quiz)))
   \<and> isSentinelName (Some (unknownName (populate_ctx example_quiz)))"
proof -
  have s: "slugSuffix (populate_ctx example_quiz) = ''quiz_1_section_a''" by code_simp
  have q: "CHR ''q'' \<in> set (slugSuffix (populate_ctx example_quiz))" unfolding s by simp
  have u: "\<not> isUnderscore CHR ''q''" by (simp add: isUnderscore_def code_def)
  have h: "\<exists>c \<in> set (slugSuffix (populate_ctx example_quiz)). \<not> isUnderscore c"
    using q u by blast
  have n: "solutionName (populate_ctx example_quiz) = ''solution_paper_quiz_1_section_a''"
    "unknownName (populate_ctx example_quiz) = ''unknown_quiz_1_section_a''"
    by code_simp+
  from sentinel_protocol [OF h] s q u n show ?thesis by blast
qed

text \<open>
  Claim C2 as the specification states it fails: for the title \<^verbatim>\<open>"Quiz 1 ?"\<close> the slug is
  \<^verbatim>\<open>quiz_1_\<close> and the sentinel is \<^verbatim>\<open>solution_paper_quiz_1\<close>; for a quiz without title and
  section the sentinels are \<^verbatim>\<open>solution_paper\<close> and \<^verbatim>\<open>unknown\<close>, which the prefix match
  of \<^verbatim>\<open>pickSolutionIndex\<close> does not recognise.
\<close>

theorem sentinel_protocol_counterexample:
  "slugify ''Quiz 1 ?'' = ''quiz_1_''
   \<and> solutionName (populate_ctx example_punctuated_quiz) = ''solution_paper_quiz_1''
   \<and> solutionName (populate_ctx example_untitled_quiz) = ''solution_paper''
   \<and> unknownName (populate_ctx example_untitled_quiz) = ''unknown''
   \<and> \<not> isSentinelName (Some (solutionName (populate_ctx example_untitled_quiz)))
   \<and> \<not> isSentinelName (Some (unknownName (populate_ctx example_untitled_quiz)))"
  by code_simp

section \<open>The solution post-processor: proofs\<close>

lemma map_of_setProp:
  "map_of (setProp k v ps) k' = (if k' = k then Some v else map_of ps k')"
  by (induction ps) auto

lemma isObjE: "isObj v \<Longrightarrow> \<exists>ps. v = JObj ps"
  by (cases v) (simp_all add: isObj_def)

lemma assign_obj: "isObj x \<Longrightarrow> assign k v x = Some (setField k v x)"
  by (cases x) (simp_all add: isObj_def assign_def setField_def)

lemma isObj_setField: "isObj x \<Longrightarrow> isObj (setField k v x)"
  by (cases x) (simp_all add: isObj_def assign_def setField_def)

lemma getProp_setField:
  "isObj x \<Longrightarrow> getProp k' (setField k v x) = (if k' = k then Some v else getProp k' x)"
  by (cases x) (simp_all add: isObj_def assign_def setField_def getProp_def map_of_setProp)

lemma converts_numOr0: "converts k x \<Longrightarrow> \<not> numOr0Throws (getProp k x)"
  by (simp add: converts_def numOr0Throws_def split: option.splits)

lemma forceSubpart_obj:
  assumes "objectSubpart sp"
  shows "\<exists>sp'. forceSubpart nu sp = Some sp' \<and> objectSubpart sp' \<and> fullMarksSubpart nu sp sp'"
proof -
  from assms have o: "isObj sp" and c: "converts ''max_marks'' sp"
    by (simp_all add: objectSubpart_def)
  let ?s1 = "setField ''marks'' (JNum (numOr0 nu (getProp ''max_marks'' sp))) sp"
  let ?s2 = "setField ''remarks'' (addNote (getProp ''remarks'' sp) ''Solution key (full marks)'') ?s1"
  have o1: "isObj ?s1" using o by (rule isObj_setField)
  have r: "getProp ''remarks'' ?s1 = getProp ''remarks'' sp"
    using o by (simp add: getProp_setField)
  have f: "forceSubpart nu sp = Some ?s2"
    using converts_numOr0[OF c] assign_obj[OF o] r by (simp add: forceSubpart_def)
  have m: "getProp ''max_marks'' ?s2 = getProp ''max_marks'' sp"
    using o o1 by (simp add: getProp_setField)
  have "objectSubpart ?s2"
    using c o1 m by (simp add: objectSubpart_def isObj_setField converts_def)
  moreover have "fullMarksSubpart nu sp ?s2"
    using o o1 by (simp add: fullMarksSubpart_def getProp_setField)
  ultimately show ?thesis using f by blast
qed

lemma forceSubparts_obj:
  "list_all objectSubpart sps \<Longrightarrow>
   \<exists>sps'. forceSubparts nu sps acc
           = (sps', foldl (\<lambda>a sp. num_add nu a (numOr0 nu (getProp ''max_marks'' sp))) acc sps,
              False)
         \<and> list_all objectSubpart sps' \<and> list_all2 (fullMarksSubpart nu) sps sps'"
proof (induction sps arbitrary: acc)
  case Nil
  then show ?case by simp
next
  case (Cons sp sps)
  from Cons.prems have a: "objectSubpart sp" and b: "list_all objectSubpart sps" by simp_all
  from forceSubpart_obj[OF a] obtain sp' where
    s: "forceSubpart nu sp = Some sp'" "objectSubpart sp'" "fullMarksSubpart nu sp sp'" by blast
  from Cons.IH[OF b, of "num_add nu acc (numOr0 nu (getProp ''max_marks'' sp))"]
  obtain sps' where
    t: "forceSubparts nu sps (num_add nu acc (numOr0 nu (getProp ''max_marks'' sp)))
        = (sps', foldl (\<lambda>a sp. num_add nu a (numOr0 nu (getProp ''max_marks'' sp)))
                   (num_add nu acc (numOr0 nu (getProp ''max_marks'' sp))) sps, False)"
       "list_all objectSubpart sps'" "list_all2 (fullMarksSubpart nu) sps sps'" by blast
  show ?case
    by (rule exI[of _ "sp' # sps'"]) (simp add: s t Let_def)
qed

lemma subpartsOf_setField:
  "isObj q \<Longrightarrow> subpartsOf (setField k v q)
     = (if k = ''subparts'' then (case v of JArr sps \<Rightarrow> sps | _ \<Rightarrow> []) else subpartsOf q)"
  by (simp add: subpartsOf_def getProp_setField)

lemma forceQuestion_obj:
  assumes "objectQuestion q"
  shows "\<exists>q' m. forceQuestion nu q = (q', Some m) \<and> objectQuestion q'
           \<and> fullMarksQuestion nu q q' \<and> getProp ''marks'' q' = Some (JNum m)"
proof -
  from assms have o: "isObj q" and c: "converts ''max_marks'' q"
    and l: "list_all objectSubpart (subpartsOf q)"
    by (simp_all add: objectQuestion_def)
  let ?note = "''Solution key (full marks)''"
  show ?thesis
  proof (cases "subpartsOf q = []")
    case True
    let ?m = "numOr0 nu (getProp ''max_marks'' q)"
    let ?q2 = "setField ''marks'' (JNum ?m) q"
    let ?q3 = "setField ''remarks'' (addNote (getProp ''remarks'' q) ?note) ?q2"
    have o2: "isObj ?q2" using o by (rule isObj_setField)
    have o3: "isObj ?q3" using o2 by (rule isObj_setField)
    have r: "getProp ''remarks'' ?q2 = getProp ''remarks'' q"
      using o by (simp add: getProp_setField)
    have f: "forceQuestion nu q = (?q3, Some ?m)"
      using converts_numOr0[OF c] assign_obj[OF o] r True
      by (simp add: forceQuestion_def Let_def)
    have s: "subpartsOf ?q3 = []"
      using o o2 True by (simp add: subpartsOf_setField)
    have m: "getProp ''max_marks'' ?q3 = getProp ''max_marks'' q"
      using o o2 by (simp add: getProp_setField)
    have "objectQuestion ?q3"
      using o3 s m c by (simp add: objectQuestion_def converts_def)
    moreover have "fullMarksQuestion nu q ?q3"
      using o o2 True s by (simp add: fullMarksQuestion_def getProp_setField)
    moreover have "getProp ''marks'' ?q3 = Some (JNum ?m)"
      using o o2 by (simp add: getProp_setField)
    ultimately show ?thesis using f by blast
  next
    case False
    from forceSubparts_obj[OF l, of nu "num_zero nu"] obtain sps' where
      t: "forceSubparts nu (subpartsOf q) (num_zero nu) = (sps', subpartsTotal nu q, False)"
         "list_all objectSubpart sps'" "list_all2 (fullMarksSubpart nu) (subpartsOf q) sps'"
      unfolding subpartsTotal_def by blast
    let ?m = "subpartsTotal nu q"
    let ?q1 = "setField ''subparts'' (JArr sps') q"
    let ?q2 = "setField ''marks'' (JNum ?m) ?q1"
    let ?q3 = "setField ''remarks'' (addNote (getProp ''remarks'' q) ?note) ?q2"
    have o1: "isObj ?q1" using o by (rule isObj_setField)
    have o2: "isObj ?q2" using o1 by (rule isObj_setField)
    have o3: "isObj ?q3" using o2 by (rule isObj_setField)
    have r: "getProp ''remarks'' ?q2 = getProp ''remarks'' q"
      using o o1 by (simp add: getProp_setField)
    have f: "forceQuestion nu q = (?q3, Some ?m)"
      using converts_numOr0[OF c] assign_obj[OF o1] r False
      by (simp add: forceQuestion_def Let_def t)
    have s: "subpartsOf ?q3 = sps'"
      using o o1 o2 by (simp add: subpartsOf_setField)
    have m: "getProp ''max_marks'' ?q3 = getProp ''max_marks'' q"
      using o o1 o2 by (simp add: getProp_setField)
    have "objectQuestion ?q3"
      using o3 s m c t(2) by (simp add: objectQuestion_def converts_def)
    moreover have k: "getProp ''marks'' ?q3 = Some (JNum ?m)"
      using o o1 o2 by (simp add: getProp_setField)
    have n: "getProp ''remarks'' ?q3
             = Some (addNote (getProp ''remarks'' q) ''Solution key (full marks)'')"
      using o2 by (simp add: getProp_setField)
    have "fullMarksQuestion nu q ?q3"
      unfolding fullMarksQuestion_def s m k n consistentMaxima_def
      using False t(3) by simp
    ultimately show ?thesis using f k by blast
  qed
qed

lemma forceQuestions_obj:
  "list_all objectQuestion qs \<Longrightarrow>
   \<exists>qs'. forceQuestions nu qs acc
           = (qs', foldl (\<lambda>a q'. num_add nu a (awardedMarks nu q')) acc qs', False)
         \<and> list_all objectQuestion qs' \<and> list_all2 (fullMarksQuestion nu) qs qs'"
proof (induction qs arbitrary: acc)
  case Nil
  then show ?case by simp
next
  case (Cons q qs)
  from Cons.prems have a: "objectQuestion q" and b: "list_all objectQuestion qs" by simp_all
  from forceQuestion_obj[OF a] obtain q' m where
    s: "forceQuestion nu q = (q', Some m)" "objectQuestion q'" "fullMarksQuestion nu q q'"
       "getProp ''marks'' q' = Some (JNum m)" by blast
  have w: "awardedMarks nu q' = orZero nu m" by (simp add: awardedMarks_def s(4))
  from Cons.IH[OF b, of "num_add nu acc (orZero nu m)"]
  obtain qs' where
    t: "forceQuestions nu qs (num_add nu acc (orZero nu m))
        = (qs', foldl (\<lambda>a q'. num_add nu a (awardedMarks nu q'))
                  (num_add nu acc (orZero nu m)) qs', False)"
       "list_all objectQuestion qs'" "list_all2 (fullMarksQuestion nu) qs qs'" by blast
  show ?case
    by (rule exI[of _ "q' # qs'"]) (simp add: s t w Let_def)
qed

lemma sumSubparts_obj:
  "list_all objectSubpart sps \<Longrightarrow> \<exists>m. sumSubparts nu sps acc = Some m"
  by (induction sps arbitrary: acc) (simp_all add: objectSubpart_def converts_numOr0)

lemma computeMax_obj:
  "list_all objectQuestion qs \<Longrightarrow> \<exists>m. computeMax nu qs acc = Some m"
proof (induction qs arbitrary: acc)
  case Nil
  then show ?case by simp
next
  case (Cons q qs)
  from Cons.prems have a: "objectQuestion q" and b: "list_all objectQuestion qs" by simp_all
  from a have c: "\<not> numOr0Throws (getProp ''max_marks'' q)"
    and l: "list_all objectSubpart (subpartsOf q)"
    by (simp_all add: objectQuestion_def converts_numOr0)
  from sumSubparts_obj[OF l, of nu acc] obtain m where m: "sumSubparts nu (subpartsOf q) acc = Some m"
    by blast
  show ?case using Cons.IH[OF b] c m by simp
qed


lemma priorName_obj: "converts ''student_name'' first \<Longrightarrow> priorName nu first = Some (nameOf nu first)"
proof -
  assume c: "converts ''student_name'' first"
  have "convertible (orDefault nu (getProp ''student_name'' first) (JStr ''Unknown Student''))"
  proof (cases "getProp ''student_name'' first")
    case None
    then show ?thesis by (simp add: orDefault_def)
  next
    case (Some v)
    with c have "convertible v" by (simp add: converts_def)
    then show ?thesis using Some by (cases v) (simp_all add: orDefault_def)
  qed
  then show ?thesis by (simp add: priorName_def nameOf_def Let_def)
qed

lemma finishRecord_obj:
  assumes o: "isObj x" and c: "converts ''max_score'' x"
  shows "\<exists>y. finishRecord nu x s m = (y, False) \<and> isObj y
           \<and> getProp ''total_score'' y = Some (JNum s)
           \<and> getProp ''remarks'' y
               = Some (addNote (getProp ''remarks'' x) ''Solution paper (awarded full marks).'')
           \<and> (\<forall>k. k \<noteq> ''total_score'' \<and> k \<noteq> ''max_score'' \<and> k \<noteq> ''remarks''
                  \<longrightarrow> getProp k y = getProp k x)"
proof -
  let ?x1 = "setField ''total_score'' (JNum s) x"
  define ms where "ms = (case getProp ''max_score'' ?x1 of
                        None \<Rightarrow> (if num_falsy nu m then s else m)
                      | Some JNull \<Rightarrow> (if num_falsy nu m then s else m)
                      | Some v \<Rightarrow> numberOr nu v s)"
  let ?x2 = "setField ''max_score'' (JNum ms) ?x1"
  let ?x3 = "setField ''remarks''
               (addNote (getProp ''remarks'' x) ''Solution paper (awarded full marks).'') ?x2"
  have o1: "isObj ?x1" using o by (rule isObj_setField)
  have o2: "isObj ?x2" using o1 by (rule isObj_setField)
  have o3: "isObj ?x3" using o2 by (rule isObj_setField)
  have a: "getProp ''max_score'' ?x1 = getProp ''max_score'' x"
    using o by (simp add: getProp_setField)
  have b: "\<not> numOr0Throws (getProp ''max_score'' ?x1)"
    unfolding a using c by (rule converts_numOr0)
  have r: "getProp ''remarks'' ?x2 = getProp ''remarks'' x"
    using o o1 by (simp add: getProp_setField)
  have f: "finishRecord nu x s m = (?x3, False)"
    unfolding finishRecord_def Let_def ms_def [symmetric] r using b by simp
  have t: "getProp ''total_score'' ?x3 = Some (JNum s)"
    using o o1 o2 by (simp add: getProp_setField)
  have n: "getProp ''remarks'' ?x3
           = Some (addNote (getProp ''remarks'' x) ''Solution paper (awarded full marks).'')"
    using o2 by (simp add: getProp_setField)
  have k: "\<forall>k. k \<noteq> ''total_score'' \<and> k \<noteq> ''max_score'' \<and> k \<noteq> ''remarks''
                  \<longrightarrow> getProp k ?x3 = getProp k x"
    using o o1 o2 by (simp add: getProp_setField)
  from f o3 t n k show ?thesis by blast
qed

lemma questionsOf_setField:
  "isObj x \<Longrightarrow> questionsOf (setField k v x)
     = (if k = ''questions'' then (case v of JArr qs \<Rightarrow> Some qs | _ \<Rightarrow> None) else questionsOf x)"
  by (simp add: questionsOf_def getProp_setField)

lemma converts_setField:
  "isObj x \<Longrightarrow> k \<noteq> k' \<Longrightarrow> converts k' (setField k v x) = converts k' x"
  by (simp add: converts_def getProp_setField)

lemma forceSolutionFullMarks_isObj:
  "isObj first \<Longrightarrow>
   forceSolutionFullMarks nu first
   = (case priorName nu first of
        None \<Rightarrow> (first, True)
      | Some name \<Rightarrow>
         (let first1 = setField ''student_name'' (JStr (trim (name @ '' '' @ name))) first
          in (case questionsOf first1 of
                None \<Rightarrow> finishRecord nu first1 (num_zero nu) (num_zero nu)
              | Some qs \<Rightarrow>
                  (let r = forceQuestions nu qs (num_zero nu);
                       first2 = setField ''questions'' (JArr (fst r)) first1
                   in if snd (snd r) then (first2, True)
                      else (case computeMax nu (fst r) (num_zero nu) of
                              None \<Rightarrow> (first2, True)
                            | Some computedMax \<Rightarrow>
                                finishRecord nu first2 (fst (snd r)) computedMax)))))"
proof (cases first)
  case (JObj ps)
  show ?thesis unfolding JObj by (simp add: forceSolutionFullMarks_def)
qed (simp_all add: isObj_def)

lemma forceSolutionFullMarks_obj:
  assumes "objectRecord first"
  obtains y where "forceSolutionFullMarks nu first = (y, False)"
    and "getProp ''student_name'' y
           = Some (JStr (trim (nameOf nu first @ '' '' @ nameOf nu first)))"
    and "(questionsOf y = None) = (questionsOf first = None)"
    and "list_all2 (fullMarksQuestion nu) (questionsList first) (questionsList y)"
    and "getProp ''total_score'' y
           = Some (JNum (foldl (\<lambda>a q. num_add nu a (awardedMarks nu q)) (num_zero nu)
                           (questionsList y)))"
    and "getProp ''remarks'' y
           = Some (addNote (getProp ''remarks'' first) ''Solution paper (awarded full marks).'')"
    and "\<forall>k. k \<noteq> ''student_name'' \<and> k \<noteq> ''questions'' \<and> k \<noteq> ''total_score''
                \<and> k \<noteq> ''max_score'' \<and> k \<noteq> ''remarks''
              \<longrightarrow> getProp k y = getProp k first"
proof -
  from assms have o: "isObj first" and cn: "converts ''student_name'' first"
    and cm: "converts ''max_score'' first"
    and qo: "case questionsOf first of None \<Rightarrow> True | Some qs \<Rightarrow> list_all objectQuestion qs"
    by (simp_all add: objectRecord_def)
  let ?n = "nameOf nu first"
  define d where "d = trim (?n @ '' '' @ ?n)"
  let ?x1 = "setField ''student_name'' (JStr d) first"
  have o1: "isObj ?x1" using o by (rule isObj_setField)
  have q1: "questionsOf ?x1 = questionsOf first" using o by (simp add: questionsOf_setField)
  have m1: "converts ''max_score'' ?x1" using o cm by (simp add: converts_setField)
  have n1: "getProp ''student_name'' ?x1 = Some (JStr d)"
    using o by (simp add: getProp_setField)
  have r1: "getProp ''remarks'' ?x1 = getProp ''remarks'' first"
    using o by (simp add: getProp_setField)
  have k1: "\<forall>k. k \<noteq> ''student_name'' \<longrightarrow> getProp k ?x1 = getProp k first"
    using o by (simp add: getProp_setField)
  show thesis
  proof (cases "questionsOf first")
    case None
    from finishRecord_obj[OF o1 m1, of nu "num_zero nu" "num_zero nu"] obtain y where
      y: "finishRecord nu ?x1 (num_zero nu) (num_zero nu) = (y, False)" "isObj y"
         "getProp ''total_score'' y = Some (JNum (num_zero nu))"
         "getProp ''remarks'' y
            = Some (addNote (getProp ''remarks'' ?x1) ''Solution paper (awarded full marks).'')"
         "\<forall>k. k \<noteq> ''total_score'' \<and> k \<noteq> ''max_score'' \<and> k \<noteq> ''remarks''
                  \<longrightarrow> getProp k y = getProp k ?x1"
      by blast
    have f: "forceSolutionFullMarks nu first = (y, False)"
      unfolding forceSolutionFullMarks_isObj[OF o] priorName_obj[OF cn] option.case Let_def
        d_def [symmetric]
      by (simp add: q1 None y(1))
    have qy: "questionsOf y = None"
      using y(5) q1 None by (simp add: questionsOf_def)
    have ny: "getProp ''student_name'' y = Some (JStr d)"
      using y(5) n1 by simp
    have h3: "(questionsOf y = None) = (questionsOf first = None)"
      by (simp add: qy None)
    have h4: "list_all2 (fullMarksQuestion nu) (questionsList first) (questionsList y)"
      by (simp add: questionsList_def qy None)
    have h5: "getProp ''total_score'' y
           = Some (JNum (foldl (\<lambda>a q. num_add nu a (awardedMarks nu q)) (num_zero nu)
                           (questionsList y)))"
      by (simp add: questionsList_def qy y(3))
    have h6: "getProp ''remarks'' y
           = Some (addNote (getProp ''remarks'' first) ''Solution paper (awarded full marks).'')"
      by (simp add: y(4) r1)
    have ky: "\<forall>k. k \<noteq> ''student_name'' \<and> k \<noteq> ''questions'' \<and> k \<noteq> ''total_score''
                    \<and> k \<noteq> ''max_score'' \<and> k \<noteq> ''remarks''
                  \<longrightarrow> getProp k y = getProp k first"
      using y(5) k1 by simp
    show thesis by (rule that[OF f ny[unfolded d_def] h3 h4 h5 h6 ky])
  next
    case (Some qs)
    with qo have l: "list_all objectQuestion qs" by simp
    from forceQuestions_obj[OF l, of nu "num_zero nu"] obtain qs' where
      t: "forceQuestions nu qs (num_zero nu)
          = (qs', foldl (\<lambda>a q'. num_add nu a (awardedMarks nu q')) (num_zero nu) qs', False)"
         "list_all objectQuestion qs'" "list_all2 (fullMarksQuestion nu) qs qs'" by blast
    from computeMax_obj[OF t(2), of nu "num_zero nu"] obtain m where
      m: "computeMax nu qs' (num_zero nu) = Some m" by blast
    let ?s = "foldl (\<lambda>a q'. num_add nu a (awardedMarks nu q')) (num_zero nu) qs'"
    let ?x2 = "setField ''questions'' (JArr qs') ?x1"
    have o2: "isObj ?x2" using o1 by (rule isObj_setField)
    have m2: "converts ''max_score'' ?x2" using o1 m1 by (simp add: converts_setField)
    have q2: "questionsOf ?x2 = Some qs'" using o1 by (simp add: questionsOf_setField)
    have n2: "getProp ''student_name'' ?x2 = Some (JStr d)"
      using o o1 by (simp add: getProp_setField)
    have r2: "getProp ''remarks'' ?x2 = getProp ''remarks'' first"
      using o o1 by (simp add: getProp_setField)
    have k2: "\<forall>k. k \<noteq> ''student_name'' \<and> k \<noteq> ''questions''
                \<longrightarrow> getProp k ?x2 = getProp k first"
      using o o1 by (simp add: getProp_setField)
    from finishRecord_obj[OF o2 m2, of nu ?s m] obtain y where
      y: "finishRecord nu ?x2 ?s m = (y, False)" "isObj y"
         "getProp ''total_score'' y = Some (JNum ?s)"
         "getProp ''remarks'' y
            = Some (addNote (getProp ''remarks'' ?x2) ''Solution paper (awarded full marks).'')"
         "\<forall>k. k \<noteq> ''total_score'' \<and> k \<noteq> ''max_score'' \<and> k \<noteq> ''remarks''
                  \<longrightarrow> getProp k y = getProp k ?x2"
      by blast
    have f: "forceSolutionFullMarks nu first = (y, False)"
      unfolding forceSolutionFullMarks_isObj[OF o] priorName_obj[OF cn] option.case Let_def
        d_def [symmetric]
      by (simp add: q1 Some t(1) m y(1))
    have "getProp ''questions'' y = getProp ''questions'' ?x2" using y(5) by simp
    then have qy: "questionsOf y = Some qs'" using q2 by (simp add: questionsOf_def)
    have ny: "getProp ''student_name'' y = Some (JStr d)"
      using y(5) n2 by simp
    have h3: "(questionsOf y = None) = (questionsOf first = None)"
      by (simp add: qy Some)
    have h4: "list_all2 (fullMarksQuestion nu) (questionsList first) (questionsList y)"
      by (simp add: questionsList_def qy Some t(3))
    have h5: "getProp ''total_score'' y
           = Some (JNum (foldl (\<lambda>a q. num_add nu a (awardedMarks nu q)) (num_zero nu)
                           (questionsList y)))"
      by (simp add: questionsList_def qy y(3))
    have h6: "getProp ''remarks'' y
           = Some (addNote (getProp ''remarks'' first) ''Solution paper (awarded full marks).'')"
      by (simp add: y(4) r2)
    have ky: "\<forall>k. k \<noteq> ''student_name'' \<and> k \<noteq> ''questions'' \<and> k \<noteq> ''total_score''
                    \<and> k \<noteq> ''max_score'' \<and> k \<noteq> ''remarks''
                  \<longrightarrow> getProp k y = getProp k first"
      using y(5) k2 by simp
    show thesis by (rule that[OF f ny[unfolded d_def] h3 h4 h5 h6 ky])
  qed
qed

lemma trimStart_nonws: "s \<noteq> [] \<Longrightarrow> \<not> isWhiteSpace (hd s) \<Longrightarrow> trimStart (s @ t) = s @ t"
  by (cases s) (simp_all add: trimStart_def)

lemma trimEnd_nonws: "s \<noteq> [] \<Longrightarrow> \<not> isWhiteSpace (last s) \<Longrightarrow> trimEnd (t @ s) = t @ s"
  by (cases s rule: rev_cases) (simp_all add: trimEnd_def)

lemma hd_trim: "trim s \<noteq> [] \<Longrightarrow> \<not> isWhiteSpace (hd (trim s))"
proof -
  assume ne: "trim s \<noteq> []"
  then have t: "trimStart s \<noteq> []" by (auto simp: trim_def trimEnd_def)
  then have "\<not> isWhiteSpace (hd (trimStart s))"
    unfolding trimStart_def using hd_dropWhile by blast
  moreover have "trimEnd (trimStart s) @ rev (takeWhile isWhiteSpace (rev (trimStart s))) = trimStart s"
  proof -
    have "rev (takeWhile isWhiteSpace (rev (trimStart s)) @ dropWhile isWhiteSpace (rev (trimStart s)))
          = trimStart s" by simp
    then show ?thesis unfolding trimEnd_def by (simp del: takeWhile_dropWhile_id)
  qed
  ultimately show ?thesis using ne unfolding trim_def by (metis hd_append2)
qed

lemma last_trim: "trim s \<noteq> [] \<Longrightarrow> \<not> isWhiteSpace (last (trim s))"
proof -
  assume ne: "trim s \<noteq> []"
  then have d: "dropWhile isWhiteSpace (rev (trimStart s)) \<noteq> []"
    by (simp add: trim_def trimEnd_def)
  then have "\<not> isWhiteSpace (hd (dropWhile isWhiteSpace (rev (trimStart s))))"
    using hd_dropWhile by blast
  then show ?thesis using d by (simp add: trim_def trimEnd_def last_rev)
qed

lemma trim_doubled:
  assumes "trim s \<noteq> []"
  shows "trim (trim s @ '' '' @ trim s) = trim s @ '' '' @ trim s"
proof -
  have a: "trimStart (trim s @ '' '' @ trim s) = trim s @ '' '' @ trim s"
    using assms hd_trim by (intro trimStart_nonws) auto
  have "trimEnd ((trim s @ '' '') @ trim s) = (trim s @ '' '') @ trim s"
    using assms last_trim by (intro trimEnd_nonws) auto
  then show ?thesis unfolding trim_def[of "trim s @ '' '' @ trim s"] a by simp
qed

lemma trim_space: "trim ([] @ '' '' @ []) = []"
  by code_simp

lemma trim_default: "trim ''Unknown Student'' = ''Unknown Student''"
  by code_simp

lemma forceSolutionFullMarks_guard:
  "\<not> isObj first \<Longrightarrow> forceSolutionFullMarks nu first = (first, False)"
  by (cases first) (simp_all add: isObj_def forceSolutionFullMarks_def)

text \<open>
  Claim C10, as the code has it. With the solution-key option on and a non-empty parsed
  array, the first element goes on as the post-processor leaves it; an element that is not
  an object is left as it is. For a record that is an object, with objects for its questions
  and their subparts and with a name, \<^verbatim>\<open>max_marks\<close> and \<^verbatim>\<open>max_score\<close> that convert, the
  post-processor throws nothing, and: the name becomes the trimmed prior name
  (\<^verbatim>\<open>Unknown Student\<close> when the name is missing, null or empty) twice, separated by a
  space, or the empty string when that name is empty; every subpart gets its \<^verbatim>\<open>max_marks\<close>
  (0 when missing) as marks; every question without subparts, and every question whose
  \<^verbatim>\<open>max_marks\<close> is the sum of those of its subparts, gets its \<^verbatim>\<open>max_marks\<close> as marks; no
  \<^verbatim>\<open>max_marks\<close> changes; the total score is the sum of the marks of the questions, added
  in their order; the note is appended to each remarks field after \<^verbatim>\<open>" | "\<close>, or is the
  remarks when they were no non-empty string; every other property of the record stays.
  The numbers and their operations are arbitrary.
\<close>

theorem solution_record_rewrite:
  fixes nu :: "'n numbers" and first :: "'n json"
  defines "rewritten \<equiv> fst (forceSolutionFullMarks nu first)"
    and "name \<equiv> nameOf nu first"
  shows
   "applySolutionKey nu True (Some (first # rest)) = Some (rewritten # rest)
    \<and> (\<not> isObj first \<longrightarrow> forceSolutionFullMarks nu first = (first, False))
    \<and> (objectRecord first \<longrightarrow>
         \<not> snd (forceSolutionFullMarks nu first)
         \<and> getProp ''student_name'' rewritten = Some (JStr (trim (name @ '' '' @ name)))
         \<and> (name \<noteq> [] \<longrightarrow> getProp ''student_name'' rewritten = Some (JStr (name @ '' '' @ name)))
         \<and> (name = [] \<longrightarrow> getProp ''student_name'' rewritten = Some (JStr []))
         \<and> ((questionsOf rewritten = None) = (questionsOf first = None))
         \<and> list_all2 (fullMarksQuestion nu) (questionsList first) (questionsList rewritten)
         \<and> getProp ''total_score'' rewritten
             = Some (JNum (foldl (\<lambda>a q. num_add nu a (awardedMarks nu q)) (num_zero nu)
                             (questionsList rewritten)))
         \<and> getProp ''remarks'' rewritten
             = Some (addNote (getProp ''remarks'' first) ''Solution paper (awarded full marks).'')
         \<and> (\<forall>k. k \<noteq> ''student_name'' \<and> k \<noteq> ''questions'' \<and> k \<noteq> ''total_score''
                  \<and> k \<noteq> ''max_score'' \<and> k \<noteq> ''remarks''
                \<longrightarrow> getProp k rewritten = getProp k first))
    \<and> (\<forall>s. getProp ''student_name'' first = Some (JStr s) \<and> s \<noteq> [] \<longrightarrow> name = trim s)
    \<and> (getProp ''student_name'' first = None \<or> getProp ''student_name'' first = Some JNull
          \<or> getProp ''student_name'' first = Some (JStr [])
        \<longrightarrow> name = ''Unknown Student'')
    \<and> (\<forall>note. addNote None note = (JStr note :: 'n json)
          \<and> addNote (Some (JStr [])) note = (JStr note :: 'n json)
          \<and> (\<forall>c t. addNote (Some (JStr (c # t))) note
                    = (JStr ((c # t) @ '' | '' @ note) :: 'n json)))"
proof -
  have a: "applySolutionKey nu True (Some (first # rest)) = Some (rewritten # rest)"
    by (simp add: applySolutionKey_def rewritten_def)
  have b: "\<not> isObj first \<longrightarrow> forceSolutionFullMarks nu first = (first, False)"
    using forceSolutionFullMarks_guard by blast
  have c: "objectRecord first \<longrightarrow>
         \<not> snd (forceSolutionFullMarks nu first)
         \<and> getProp ''student_name'' rewritten = Some (JStr (trim (name @ '' '' @ name)))
         \<and> (name \<noteq> [] \<longrightarrow> getProp ''student_name'' rewritten = Some (JStr (name @ '' '' @ name)))
         \<and> (name = [] \<longrightarrow> getProp ''student_name'' rewritten = Some (JStr []))
         \<and> ((questionsOf rewritten = None) = (questionsOf first = None))
         \<and> list_all2 (fullMarksQuestion nu) (questionsList first) (questionsList rewritten)
         \<and> getProp ''total_score'' rewritten
             = Some (JNum (foldl (\<lambda>a q. num_add nu a (awardedMarks nu q)) (num_zero nu)
                             (questionsList rewritten)))
         \<and> getProp ''remarks'' rewritten
             = Some (addNote (getProp ''remarks'' first) ''Solution paper (awarded full marks).'')
         \<and> (\<forall>k. k \<noteq> ''student_name'' \<and> k \<noteq> ''questions'' \<and> k \<noteq> ''total_score''
                  \<and> k \<noteq> ''max_score'' \<and> k \<noteq> ''remarks''
                \<longrightarrow> getProp k rewritten = getProp k first)"
  proof
    assume "objectRecord first"
    then obtain y where
      y: "forceSolutionFullMarks nu first = (y, False)"
         "getProp ''student_name'' y = Some (JStr (trim (name @ '' '' @ name)))"
         "(questionsOf y = None) = (questionsOf first = None)"
         "list_all2 (fullMarksQuestion nu) (questionsList first) (questionsList y)"
         "getProp ''total_score'' y
               = Some (JNum (foldl (\<lambda>a q. num_add nu a (awardedMarks nu q)) (num_zero nu)
                               (questionsList y)))"
         "getProp ''remarks'' y
               = Some (addNote (getProp ''remarks'' first) ''Solution paper (awarded full marks).'')"
         "\<forall>k. k \<noteq> ''student_name'' \<and> k \<noteq> ''questions'' \<and> k \<noteq> ''total_score''
                    \<and> k \<noteq> ''max_score'' \<and> k \<noteq> ''remarks''
                  \<longrightarrow> getProp k y = getProp k first"
      unfolding name_def by (rule forceSolutionFullMarks_obj)
    have r: "rewritten = y" by (simp add: rewritten_def y(1))
    have n: "name = trim (toStr nu (orDefault nu (getProp ''student_name'' first)
                                      (JStr ''Unknown Student'')))"
      by (simp add: name_def nameOf_def)
    have d: "name \<noteq> [] \<longrightarrow> trim (name @ '' '' @ name) = name @ '' '' @ name"
      unfolding n using trim_doubled by blast
    have e: "name = [] \<longrightarrow> trim (name @ '' '' @ name) = []"
      using trim_space by auto
    have s: "\<not> snd (forceSolutionFullMarks nu first)" by (simp add: y(1))
    have n1: "name \<noteq> [] \<longrightarrow> getProp ''student_name'' y = Some (JStr (name @ '' '' @ name))"
      using y(2) d by simp
    have n2: "name = [] \<longrightarrow> getProp ''student_name'' y = Some (JStr [])"
      using y(2) e by simp
    show "\<not> snd (forceSolutionFullMarks nu first)
         \<and> getProp ''student_name'' rewritten = Some (JStr (trim (name @ '' '' @ name)))
         \<and> (name \<noteq> [] \<longrightarrow> getProp ''student_name'' rewritten = Some (JStr (name @ '' '' @ name)))
         \<and> (name = [] \<longrightarrow> getProp ''student_name'' rewritten = Some (JStr []))
         \<and> ((questionsOf rewritten = None) = (questionsOf first = None))
         \<and> list_all2 (fullMarksQuestion nu) (questionsList first) (questionsList rewritten)
         \<and> getProp ''total_score'' rewritten
             = Some (JNum (foldl (\<lambda>a q. num_add nu a (awardedMarks nu q)) (num_zero nu)
                             (questionsList rewritten)))
         \<and> getProp ''remarks'' rewritten
             = Some (addNote (getProp ''remarks'' first) ''Solution paper (awarded full marks).'')
         \<and> (\<forall>k. k \<noteq> ''student_name'' \<and> k \<noteq> ''questions'' \<and> k \<noteq> ''total_score''
                  \<and> k \<noteq> ''max_score'' \<and> k \<noteq> ''remarks''
                \<longrightarrow> getProp k rewritten = getProp k first)"
      unfolding r using s y(2) n1 n2 y(3) y(4) y(5) y(6) y(7) by blast
  qed
  have f: "\<forall>s. getProp ''student_name'' first = Some (JStr s) \<and> s \<noteq> [] \<longrightarrow> name = trim s"
    by (simp add: name_def nameOf_def orDefault_def)
  have g: "getProp ''student_name'' first = None \<or> getProp ''student_name'' first = Some JNull
          \<or> getProp ''student_name'' first = Some (JStr [])
        \<longrightarrow> name = ''Unknown Student''"
    using trim_default by (auto simp: name_def nameOf_def orDefault_def)
  have h: "\<forall>note. addNote None note = (JStr note :: 'n json)
          \<and> addNote (Some (JStr [])) note = (JStr note :: 'n json)
          \<and> (\<forall>c t. addNote (Some (JStr (c # t))) note
                    = (JStr ((c # t) @ '' | '' @ note) :: 'n json))"
    by (simp add: addNote_def)
  from a b c f g h show ?thesis by blast
qed

theorem solution_record_rewrite_witness:
  "objectRecord example_solution
   \<and> list_all (consistentMaxima exampleNumbers) (questionsList example_solution)
   \<and> nameOf exampleNumbers example_solution = ''solution_paper_quiz_1''
   \<and> getProp ''student_name'' (fst (forceSolutionFullMarks exampleNumbers example_solution))
       = Some (JStr ''solution_paper_quiz_1 solution_paper_quiz_1'')
   \<and> map (getProp ''marks'')
        (questionsList (fst (forceSolutionFullMarks exampleNumbers example_solution)))
       = [Some (JNum 7), Some (JNum 5)]
   \<and> map (getProp ''max_marks'')
        (questionsList (fst (forceSolutionFullMarks exampleNumbers example_solution)))
       = [Some (JNum 7), Some (JNum 5)]
   \<and> map (\<lambda>q. map (getProp ''marks'') (subpartsOf q))
        (questionsList (fst (forceSolutionFullMarks exampleNumbers example_solution)))
       = [ [Some (JNum 3), Some (JNum 4)], []]
   \<and> getProp ''total_score'' (fst (forceSolutionFullMarks exampleNumbers example_solution))
       = Some (JNum 12)
   \<and> getProp ''remarks'' (fst (forceSolutionFullMarks exampleNumbers example_solution))
       = Some (JStr ''Solution paper (awarded full marks).'')"
proof -
  have o: "objectRecord example_solution" by code_simp
  have c: "list_all (consistentMaxima exampleNumbers) (questionsList example_solution)"
    by code_simp
  have p: "nameOf exampleNumbers example_solution = ''solution_paper_quiz_1''" by code_simp
  have q: "map (getProp ''marks'')
        (questionsList (fst (forceSolutionFullMarks exampleNumbers example_solution)))
       = [Some (JNum 7), Some (JNum 5)]"
    by code_simp
  have m: "map (getProp ''max_marks'')
        (questionsList (fst (forceSolutionFullMarks exampleNumbers example_solution)))
       = [Some (JNum 7), Some (JNum 5)]"
    by code_simp
  have s: "map (\<lambda>q. map (getProp ''marks'') (subpartsOf q))
        (questionsList (fst (forceSolutionFullMarks exampleNumbers example_solution)))
       = [ [Some (JNum 3), Some (JNum 4)], []]"
    by code_simp
  have t: "getProp ''total_score'' (fst (forceSolutionFullMarks exampleNumbers example_solution))
       = Some (JNum 12)"
    by code_simp
  have r: "getProp ''remarks'' (fst (forceSolutionFullMarks exampleNumbers example_solution))
       = Some (JStr ''Solution paper (awarded full marks).'')"
    by code_simp
  from solution_record_rewrite [of exampleNumbers example_solution "[]"] o
  have "nameOf exampleNumbers example_solution \<noteq> []
        \<longrightarrow> getProp ''student_name'' (fst (forceSolutionFullMarks exampleNumbers example_solution))
              = Some (JStr (nameOf exampleNumbers example_solution @ '' ''
                            @ nameOf exampleNumbers example_solution))"
    by blast
  then have "getProp ''student_name'' (fst (forceSolutionFullMarks exampleNumbers example_solution))
       = Some (JStr ''solution_paper_quiz_1 solution_paper_quiz_1'')"
    by (simp add: p)
  with o c p q m s t r show ?thesis by simp
qed

text \<open>
  Claim C10 as the specification states it fails on a first element that is null, which is
  left as it is; on a record without a name, which gets the name
  \<^verbatim>\<open>Unknown Student Unknown Student\<close>, and on one whose name is two spaces, which gets the
  empty name; on a record whose second question is null, where the post-processor throws
  after the first question, sets no total score, and the record goes on as it is then; and
  on a name that is an object with a property \<^verbatim>\<open>toString\<close>, where it throws at once. On a
  question with \<^verbatim>\<open>max_marks\<close> 10 whose two subparts have the \<^verbatim>\<open>max_marks\<close> 3 and 4 the
  marks become 7.
\<close>

theorem solution_record_rewrite_counterexample:
  "applySolutionKey exampleNumbers True (Some [JNull, example_solution])
     = Some [JNull, example_solution]
   \<and> getProp ''student_name'' example_unnamed_solution = Some JNull
   \<and> getProp ''student_name''
        (fst (forceSolutionFullMarks exampleNumbers example_unnamed_solution))
       = Some (JStr ''Unknown Student Unknown Student'')
   \<and> getProp ''student_name''
        (fst (forceSolutionFullMarks exampleNumbers (JObj [(''student_name'', JStr ''  '')])))
       = Some (JStr [])
   \<and> snd (forceSolutionFullMarks exampleNumbers example_broken_solution)
   \<and> getProp ''total_score'' (fst (forceSolutionFullMarks exampleNumbers example_broken_solution))
       = None
   \<and> applySolutionKey exampleNumbers True (Some [example_broken_solution])
       = Some [JObj [(''student_name'', JStr ''Jane Jane''),
                     (''questions'',
                      JArr [JObj [(''number'', JNum 1), (''marks'', JNum 5),
                                  (''max_marks'', JNum 5), (''subparts'', JArr []),
                                  (''remarks'', JStr ''Solution key (full marks)'')],
                            JNull])]]
   \<and> snd (forceSolutionFullMarks exampleNumbers example_odd_name_solution)
   \<and> fst (forceSolutionFullMarks exampleNumbers example_odd_name_solution)
       = example_odd_name_solution
   \<and> map (getProp ''marks'')
        (questionsList (fst (forceSolutionFullMarks exampleNumbers example_inconsistent_solution)))
       = [Some (JNum 7)]
   \<and> map (getProp ''max_marks'')
        (questionsList (fst (forceSolutionFullMarks exampleNumbers example_inconsistent_solution)))
       = [Some (JNum 10)]"
  by code_simp

end
